theory Spec2Isabelle
  imports Complex_Main
begin

section \<open>Scafflater: options resolution, the processor pipeline and the manifest\<close>

text \<open>
  The functions embedded here are those of \<^verbatim>\<open>ScafflaterOptions\<close> (options/index.js:
  the constructor, \<open>getFolderOptions\<close>, \<open>getFileOptions\<close>, \<open>getConfigFromString\<close>,
  \<open>stripConfig\<close>), of \<^verbatim>\<open>Processor\<close> (generator/processors/processor.js: \<open>process\<close>,
  \<open>getProcessor\<close>, \<open>runProcessorsPipeline\<close>), \<^verbatim>\<open>ConfigProvider.mergeFolderConfig\<close>
  (config-provider/index.js) and \<^verbatim>\<open>Scafflater.runPartial\<close>. Each keeps its name and the
  order of its statements. What these functions call but do not define (the JSON parser,
  \<^verbatim>\<open>path.join\<close>, the region provider, the template manager and the generator) is a
  parameter of the function that calls it, so a theorem holds for whatever the
  collaborator does; the file system is a table from paths to contents, which the
  functions read and write; regular expressions, which the sources write out, are run by
  a matcher defined here.
\<close>

section \<open>Errors and strings\<close>

text \<open>
  Every \<^verbatim>\<open>throw\<close> of the JavaScript sources is a value of type \<open>error\<close>; a function
  that can throw returns \<open>error + 'a\<close> with \<open>Inl\<close> for the exception. \<open>Error\<close> carries the
  message of \<^verbatim>\<open>new Error(msg)\<close>; \<open>MalformedRegionError\<close> is the error of the region
  scanner; the other constructors are the exceptions the language itself raises.
\<close>

datatype error =
    Error string
  | TypeError string
  | SyntaxError string
  | ReferenceError string
  | MalformedRegionError

text \<open>
  A JavaScript string is modelled as a \<open>string\<close>: one \<open>char\<close> per code unit, for the
  code units \<open>0x00 .. 0xFF\<close>. \<open>is_space\<close> is the class \<^verbatim>\<open>\s\<close> (white space and
  line terminators) on these code units, which is also what \<^verbatim>\<open>String.prototype.trim\<close>
  removes; \<open>is_line_terminator\<close> is what \<^verbatim>\<open>.\<close> refuses.
\<close>

definition is_line_terminator :: "char \<Rightarrow> bool" where
  "is_line_terminator c = (c = CHR 0x0A \<or> c = CHR 0x0D)"

definition is_space :: "char \<Rightarrow> bool" where
  "is_space c = (c \<in> set [CHR 0x20, CHR 0x0A, CHR 0x09, CHR 0x0D, CHR 0x0B, CHR 0x0C, CHR 0xA0])"

definition trim :: "string \<Rightarrow> string" where
  "trim s = rev (dropWhile is_space (rev (dropWhile is_space s)))"

section \<open>The processor pipeline (generator/processors/processor.js)\<close>

text \<open>
  A processor is its \<^verbatim>\<open>process(context, input)\<close> method: it returns the
  \<^verbatim>\<open>{context, result}\<close> pair or throws. The context is a value of any type
  \<open>'ctx\<close>; the shallow copy \<^verbatim>\<open>{ ...context }\<close> of a value is the value.
\<close>

type_synonym 'ctx processor = "'ctx \<Rightarrow> string \<Rightarrow> error + ('ctx \<times> string)"

text \<open>The base class: \<^verbatim>\<open>process(context, input) { return { context, result: input } }\<close>.\<close>

definition process :: "'ctx processor" where
  "process context input = Inr (context, input)"

text \<open>
  \<^verbatim>\<open>for (const processor of processors) { ... }\<close>: the loop over the list, with
  \<open>generationContext\<close> and \<open>input\<close> as the loop variables. A stage that throws ends the
  loop with its exception.
\<close>

fun pipeline_loop :: "'ctx processor list \<Rightarrow> 'ctx \<Rightarrow> string \<Rightarrow> error + string" where
  "pipeline_loop [] generationContext input = Inr input"
| "pipeline_loop (processor # processors) generationContext input =
     (case processor generationContext input of
        Inl e \<Rightarrow> Inl e
      | Inr (context', result) \<Rightarrow> pipeline_loop processors context' (trim result))"

definition runProcessorsPipeline :: "'ctx processor list \<Rightarrow> 'ctx \<Rightarrow> string \<Rightarrow> error + string" where
  "runProcessorsPipeline processors context input = pipeline_loop processors context input"

text \<open>
  The pipeline as the specification words it: a left fold over the configured list. One
  stage takes the previous stage's returned context and trimmed result and hands on its
  own returned context and its own result, trimmed; a failure is handed on unchanged.
\<close>

definition stage :: "error + ('ctx \<times> string) \<Rightarrow> 'ctx processor \<Rightarrow> error + ('ctx \<times> string)" where
  "stage acc p =
     (case acc of
        Inl e \<Rightarrow> Inl e
      | Inr (c, s) \<Rightarrow> (case p c s of Inl e \<Rightarrow> Inl e | Inr (c', r) \<Rightarrow> Inr (c', trim r)))"

definition pipeline_fold :: "'ctx processor list \<Rightarrow> 'ctx \<Rightarrow> string \<Rightarrow> error + string" where
  "pipeline_fold processors context input =
     (case foldl stage (Inr (context, input)) processors of
        Inl e \<Rightarrow> Inl e
      | Inr (c, s) \<Rightarrow> Inr s)"

section \<open>Regular expressions as the sources use them\<close>

text \<open>
  The two patterns of options/index.js are built from single-character atoms, sequence,
  alternative, the greedy and the lazy star, the greedy option and one named group. Both
  carry the flags \<^verbatim>\<open>gi\<close>: every literal is compared after \<open>canonicalize\<close> (the
  upper-case mapping of the \<^verbatim>\<open>i\<close> flag, which on the code units modelled changes the
  letters \<^verbatim>\<open>a-z\<close> only as far as these patterns can tell).
\<close>

definition canonicalize :: "char \<Rightarrow> char" where
  "canonicalize c =
     (case map_of (zip ''abcdefghijklmnopqrstuvwxyz'' ''ABCDEFGHIJKLMNOPQRSTUVWXYZ'') c of
        Some u \<Rightarrow> u
      | None \<Rightarrow> c)"

datatype atom =
    Dot
  | Space
  | Lit char
  | NotLit char

fun accepts :: "atom \<Rightarrow> char \<Rightarrow> bool" where
  "accepts Dot c = (\<not> is_line_terminator c)"
| "accepts Space c = is_space c"
| "accepts (Lit a) c = (if c = a then True else canonicalize c = canonicalize a)"
| "accepts (NotLit a) c = (if c = a then False else canonicalize c \<noteq> canonicalize a)"

datatype regex =
    Atom atom
  | Seq regex regex
  | Alt regex regex
  | Star regex
  | LazyStar regex
  | Opt regex
  | Group regex

text \<open>
  The matcher is the backtracking matcher of the language definition: a pattern is run on
  a state (the text still to read and the text captured by the group \<^verbatim>\<open>json\<close> so far)
  with a continuation, and the first alternative whose continuation succeeds wins. A
  greedy star tries one more round before it tries to stop, a lazy star the other way
  round; a round that reads nothing is refused, as the language does.
\<close>

type_synonym mstate = "string \<times> string option"

function matcher :: "regex \<Rightarrow> mstate \<Rightarrow> (mstate \<Rightarrow> mstate option) \<Rightarrow> mstate option" where
  "matcher (Atom a) (s, cap) k =
     (case s of [] \<Rightarrow> None | c # s' \<Rightarrow> if accepts a c then k (s', cap) else None)"
| "matcher (Seq r1 r2) x k = matcher r1 x (\<lambda>y. matcher r2 y k)"
| "matcher (Alt r1 r2) x k = (case matcher r1 x k of Some z \<Rightarrow> Some z | None \<Rightarrow> matcher r2 x k)"
| "matcher (Star r) (s, cap) k =
     (case matcher r (s, cap) (\<lambda>y. if length (fst y) < length s then matcher (Star r) y k else None) of
        Some z \<Rightarrow> Some z
      | None \<Rightarrow> k (s, cap))"
| "matcher (LazyStar r) (s, cap) k =
     (case k (s, cap) of
        Some z \<Rightarrow> Some z
      | None \<Rightarrow>
          matcher r (s, cap) (\<lambda>y. if length (fst y) < length s then matcher (LazyStar r) y k else None))"
| "matcher (Opt r) x k = (case matcher r x k of Some z \<Rightarrow> Some z | None \<Rightarrow> k x)"
| "matcher (Group r) (s, cap) k =
     matcher r (s, cap) (\<lambda>y. k (fst y, Some (take (length s - length (fst y)) s)))"
  by pat_completeness auto
termination
  by (relation "measures [\<lambda>(r, x, k). size r, \<lambda>(r, x, k). length (fst x)]") auto

text \<open>A match attempt at the start of \<open>s\<close>: the text left after the match, and the group.\<close>

definition exec_at :: "regex \<Rightarrow> string \<Rightarrow> mstate option" where
  "exec_at r s = matcher r (s, None) Some"

record rmatch =
  index :: nat
  matched :: string
  json :: "string option"

text \<open>
  \<^verbatim>\<open>str.matchAll(regex)\<close> with the \<^verbatim>\<open>g\<close> flag, from offset \<open>i\<close> where \<open>s\<close> is the text from
  \<open>i\<close> on: the match is looked for at \<open>i\<close>, then at \<open>i + 1\<close>, and so on; after a match the
  search goes on where the match ended, one further when the match was empty. The
  patterns have neither anchors nor look-behind, so a match attempt depends on the text
  from its offset on only.
\<close>

function matchAll_from :: "regex \<Rightarrow> nat \<Rightarrow> string \<Rightarrow> rmatch list" where
  "matchAll_from r i s =
     (case exec_at r s of
        None \<Rightarrow> (case s of [] \<Rightarrow> [] | c # s' \<Rightarrow> matchAll_from r (Suc i) s')
      | Some (rest, cap) \<Rightarrow>
          \<lparr>index = i, matched = take (length s - length rest) s, json = cap\<rparr> #
          (if length rest < length s then matchAll_from r (i + (length s - length rest)) rest
           else (case s of [] \<Rightarrow> [] | c # s' \<Rightarrow> matchAll_from r (Suc i) s')))"
  by pat_completeness auto
termination
  by (relation "measure (\<lambda>(r, i, s). length s)") auto

declare matchAll_from.simps [simp del]

definition matchAll :: "regex \<Rightarrow> string \<Rightarrow> rmatch list" where
  "matchAll r str = matchAll_from r 0 str"

text \<open>
  \<^verbatim>\<open>str.replace(regex, "")\<close> with the \<^verbatim>\<open>g\<close> flag: the text of every match is left out,
  everything between the matches is copied.
\<close>

function replace_from :: "regex \<Rightarrow> string \<Rightarrow> string" where
  "replace_from r s =
     (case exec_at r s of
        None \<Rightarrow> (case s of [] \<Rightarrow> [] | c # s' \<Rightarrow> c # replace_from r s')
      | Some (rest, cap) \<Rightarrow>
          (if length rest < length s then replace_from r rest
           else (case s of [] \<Rightarrow> [] | c # s' \<Rightarrow> c # replace_from r s')))"
  by pat_completeness auto
termination
  by (relation "measure (\<lambda>(r, s). length s)") auto

declare replace_from.simps [simp del]

text \<open>A string read as a pattern of literal characters, followed by \<open>r\<close>.\<close>

fun lits :: "string \<Rightarrow> regex \<Rightarrow> regex" where
  "lits [] r = r"
| "lits (c # cs) r = Seq (Atom (Lit c)) (lits cs r)"

text \<open>
  The group of \<open>getConfigFromString\<close>:
  \<^verbatim>\<open>(?<json>{.*:({.*}|".*"|[^}])*?})\<close>.
\<close>

definition jsonGroup :: regex where
  "jsonGroup =
     Group
       (Seq (Atom (Lit CHR ''{''))
       (Seq (Star (Atom Dot))
       (Seq (Atom (Lit CHR '':''))
       (Seq (LazyStar
               (Alt (Seq (Atom (Lit CHR ''{'')) (Seq (Star (Atom Dot)) (Atom (Lit CHR ''}''))))
               (Alt (Seq (Atom (Lit (CHR 0x22))) (Seq (Star (Atom Dot)) (Atom (Lit (CHR 0x22)))))
                    (Atom (NotLit CHR ''}'')))))
            (Atom (Lit CHR ''}''))))))"

text \<open>
  \<^verbatim>\<open>.*${this.optionMarker}\s*(?<json>...).*\<close> of \<open>getConfigFromString\<close>. The marker is
  spliced into the pattern; the model reads it as literal characters, which is what the
  pattern compiler does with a marker free of pattern operators, such as the default
  \<^verbatim>\<open>@scf-option\<close>.
\<close>

definition configRegex :: "string \<Rightarrow> regex" where
  "configRegex optionMarker =
     Seq (Star (Atom Dot))
       (lits optionMarker
          (Seq (Star (Atom Space)) (Seq jsonGroup (Star (Atom Dot)))))"

text \<open>\<^verbatim>\<open>.*${this.optionMarker}\s*(?<json>{.*}).*\n?\<close> of \<open>stripConfig\<close>.\<close>

definition stripRegex :: "string \<Rightarrow> regex" where
  "stripRegex optionMarker =
     Seq (Star (Atom Dot))
       (lits optionMarker
          (Seq (Star (Atom Space))
          (Seq (Group (Seq (Atom (Lit CHR ''{'')) (Seq (Star (Atom Dot)) (Atom (Lit CHR ''}'')))))
          (Seq (Star (Atom Dot)) (Opt (Atom (Lit (CHR 0x0A))))))))"

section \<open>Values, objects and the heap\<close>

text \<open>
  \<open>json\<close> is the data \<^verbatim>\<open>JSON.parse\<close> and \<^verbatim>\<open>fsUtil.readJSON\<close> return. A number is kept as
  it is written. An object is the list of its members in the order they were written; a
  name written twice has the value written last.
\<close>

datatype json =
    JNull
  | JBool bool
  | JNum string
  | JStr string
  | JArr "json list"
  | JObj "(string \<times> json) list"

text \<open>
  A value held in a property is \<^verbatim>\<open>undefined\<close>, JSON data, or a reference to an object
  of the heap (an options instance, the logger). JSON data is immutable in the model: the
  sources write to no parsed object but, in debug mode, the one a directive may supply as
  \<^verbatim>\<open>logger\<close>.
\<close>

datatype val =
    Undefined
  | Json json
  | Ref nat

abbreviation Str :: "string \<Rightarrow> val" where
  "Str s \<equiv> Json (JStr s)"

abbreviation Null :: val where
  "Null \<equiv> Json JNull"

abbreviation Bool :: "bool \<Rightarrow> val" where
  "Bool b \<equiv> Json (JBool b)"

text \<open>
  An object is the table of its own enumerable properties; inherited properties and
  accessors are not part of it. The heap is the list of the objects that have an
  identity, an address being a position in the list.
\<close>

type_synonym props = "string \<rightharpoonup> val"

type_synonym heap = "props list"

definition obj_at :: "heap \<Rightarrow> nat \<Rightarrow> props" where
  "obj_at h a = (if a < length h then h ! a else Map.empty)"

text \<open>The property names of an array or a string are the decimal indices.\<close>

function show_nat :: "nat \<Rightarrow> string" where
  "show_nat n =
     (if n < 10 then [''0123456789'' ! n]
      else show_nat (n div 10) @ [''0123456789'' ! (n mod 10)])"
  by pat_completeness auto
termination
  by (relation "measure id") auto

declare show_nat.simps [simp del]

definition indexed :: "'a list \<Rightarrow> (string \<times> 'a) list" where
  "indexed xs = zip (map show_nat [0 ..< length xs]) xs"

text \<open>
  \<open>member_table\<close> is the property table of an object literal read left to right.
  \<open>own_props h v\<close> is what the spread \<^verbatim>\<open>{ ...v }\<close> copies: the own enumerable properties
  of an object, the elements of an array and the characters of a string under their
  indices, nothing for \<^verbatim>\<open>undefined\<close>, \<^verbatim>\<open>null\<close>, a boolean or a number.
\<close>

definition member_table :: "(string \<times> json) list \<Rightarrow> props" where
  "member_table kvs = map_of (rev (map (\<lambda>(k, j). (k, Json j)) kvs))"

fun json_props :: "json \<Rightarrow> props" where
  "json_props (JObj kvs) = member_table kvs"
| "json_props (JArr xs) = member_table (indexed xs)"
| "json_props (JStr s) = member_table (indexed (map (\<lambda>c. JStr [c]) s))"
| "json_props j = Map.empty"

fun own_props :: "heap \<Rightarrow> val \<Rightarrow> props" where
  "own_props h (Json j) = json_props j"
| "own_props h (Ref a) = obj_at h a"
| "own_props h Undefined = Map.empty"

text \<open>\<^verbatim>\<open>if (v)\<close>: a number is false when it is a zero, whatever its sign and exponent.\<close>

fun truthy :: "val \<Rightarrow> bool" where
  "truthy Undefined = False"
| "truthy (Json JNull) = False"
| "truthy (Json (JBool b)) = b"
| "truthy (Json (JNum n)) = list_ex (\<lambda>c. c \<in> set ''123456789'') (takeWhile (\<lambda>c. c \<notin> set ''eE'') n)"
| "truthy (Json (JStr s)) = (s \<noteq> [])"
| "truthy (Json (JArr xs)) = True"
| "truthy (Json (JObj kvs)) = True"
| "truthy (Ref a) = True"

text \<open>
  The text a value has inside a template literal. An array is its elements joined by
  commas, \<^verbatim>\<open>null\<close> elements left empty.
\<close>

fun join_commas :: "string list \<Rightarrow> string" where
  "join_commas [] = []"
| "join_commas [x] = x"
| "join_commas (x # y # ys) = x @ '','' @ join_commas (y # ys)"

fun json_text :: "json \<Rightarrow> string" where
  "json_text JNull = ''null''"
| "json_text (JBool b) = (if b then ''true'' else ''false'')"
| "json_text (JNum n) = n"
| "json_text (JStr s) = s"
| "json_text (JArr xs) = join_commas (map (\<lambda>x. if x = JNull then [] else json_text x) xs)"
| "json_text (JObj kvs) = ''[object Object]''"

fun template_text :: "val \<Rightarrow> string" where
  "template_text Undefined = ''undefined''"
| "template_text (Json j) = json_text j"
| "template_text (Ref a) = ''[object Object]''"

section \<open>JSON.parse\<close>

text \<open>
  \<open>getConfigFromString\<close> takes the parser as a parameter, so every theorem about it
  holds for the parser of the platform, whatever it is. \<open>JSON_parse\<close> is the grammar of
  JSON written out, for the inputs the theorems are evaluated on: white space is space,
  tab, line feed and carriage return; a string has no raw control character and the
  escapes of JSON (\<^verbatim>\<open>\uXXXX\<close> gives the code unit, reduced to the code units modelled);
  a number is an optional minus, an integer part without a leading zero, an optional
  fraction and an optional exponent.
\<close>

definition is_ws :: "char \<Rightarrow> bool" where
  "is_ws c = (c \<in> set [CHR 0x20, CHR 0x09, CHR 0x0A, CHR 0x0D])"

definition is_digit :: "char \<Rightarrow> bool" where
  "is_digit c = (c \<in> set ''0123456789'')"

definition skip_ws :: "string \<Rightarrow> string" where
  "skip_ws s = dropWhile is_ws s"

definition hex_value :: "char \<Rightarrow> nat option" where
  "hex_value c =
     map_of (zip ''0123456789abcdefABCDEF''
       [0, 1, 2, 3, 4, 5, 6, 7, 8, 9, 10, 11, 12, 13, 14, 15, 10, 11, 12, 13, 14, 15]) c"

definition hex4 :: "char \<Rightarrow> char \<Rightarrow> char \<Rightarrow> char \<Rightarrow> char option" where
  "hex4 a b c d =
     (case (hex_value a, hex_value b, hex_value c, hex_value d) of
        (Some w, Some x, Some y, Some z) \<Rightarrow> Some (char_of (((w * 16 + x) * 16 + y) * 16 + z))
      | _ \<Rightarrow> None)"

text \<open>The characters of a string after its opening quote: the string and what follows it.\<close>

fun string_chars :: "string \<Rightarrow> (string \<times> string) option" where
  "string_chars [] = None"
| "string_chars (c # cs) =
     (if c = CHR 0x22 then Some ([], cs)
      else if c = CHR 0x5C then
        (case cs of
           [] \<Rightarrow> None
         | e # es \<Rightarrow>
             (if e = CHR ''u'' then
                (case es of
                   a # b # c # d # rest \<Rightarrow>
                     (case hex4 a b c d of
                        None \<Rightarrow> None
                      | Some u \<Rightarrow> map_option (\<lambda>(t, r). (u # t, r)) (string_chars rest))
                 | _ \<Rightarrow> None)
              else
                (case map_of (zip [CHR 0x22, CHR 0x5C, CHR ''/'', CHR ''b'', CHR ''f'', CHR ''n'', CHR ''r'', CHR ''t'']
                                  [CHR 0x22, CHR 0x5C, CHR ''/'', CHR 0x08, CHR 0x0C, CHR 0x0A, CHR 0x0D, CHR 0x09]) e of
                   None \<Rightarrow> None
                 | Some u \<Rightarrow> map_option (\<lambda>(t, r). (u # t, r)) (string_chars es))))
      else if (of_char c :: nat) < 32 then None
      else map_option (\<lambda>(t, r). (c # t, r)) (string_chars cs))"

text \<open>A number at the start of the text: the number as written and what follows it.\<close>

definition digits1 :: "string \<Rightarrow> (string \<times> string) option" where
  "digits1 s = (let d = takeWhile is_digit s in if d = [] then None else Some (d, dropWhile is_digit s))"

definition int_part :: "string \<Rightarrow> (string \<times> string) option" where
  "int_part s =
     (case s of
        [] \<Rightarrow> None
      | c # cs \<Rightarrow> if c = CHR ''0'' then Some ([c], cs) else digits1 s)"

definition frac_part :: "string \<Rightarrow> (string \<times> string) option" where
  "frac_part s =
     (case s of
        c # cs \<Rightarrow>
          (if c = CHR ''.'' then map_option (\<lambda>(d, r). (c # d, r)) (digits1 cs) else Some ([], s))
      | [] \<Rightarrow> Some ([], s))"

definition exp_part :: "string \<Rightarrow> (string \<times> string) option" where
  "exp_part s =
     (case s of
        c # cs \<Rightarrow>
          (if c \<in> set ''eE'' then
             (case cs of
                g # gs \<Rightarrow>
                  (if g \<in> set ''+-'' then map_option (\<lambda>(d, r). (c # g # d, r)) (digits1 gs)
                   else map_option (\<lambda>(d, r). (c # d, r)) (digits1 cs))
              | [] \<Rightarrow> None)
           else Some ([], s))
      | [] \<Rightarrow> Some ([], s))"

definition number :: "string \<Rightarrow> (string \<times> string) option" where
  "number s =
     (let (sign, s1) = (case s of c # cs \<Rightarrow> if c = CHR ''-'' then ([c], cs) else ([], s) | [] \<Rightarrow> ([], s))
      in case int_part s1 of
           None \<Rightarrow> None
         | Some (i, s2) \<Rightarrow>
             (case frac_part s2 of
                None \<Rightarrow> None
              | Some (f, s3) \<Rightarrow>
                  (case exp_part s3 of
                     None \<Rightarrow> None
                   | Some (e, s4) \<Rightarrow> Some (sign @ i @ f @ e, s4))))"

definition keyword :: "string \<Rightarrow> string \<Rightarrow> string option" where
  "keyword w s = (if take (length w) s = w then Some (drop (length w) s) else None)"

text \<open>
  The recursive descent. The first argument bounds the number of nested and successive
  calls; \<open>JSON_parse\<close> starts it with more than the text is long, and every call reads at
  least one character.
\<close>

fun value_json :: "nat \<Rightarrow> string \<Rightarrow> (json \<times> string) option"
  and members :: "nat \<Rightarrow> (string \<times> json) list \<Rightarrow> string \<Rightarrow> (json \<times> string) option"
  and elements :: "nat \<Rightarrow> json list \<Rightarrow> string \<Rightarrow> (json \<times> string) option" where
  "value_json 0 s = None"
| "value_json (Suc n) s =
     (case skip_ws s of
        [] \<Rightarrow> None
      | c # cs \<Rightarrow>
          (if c = CHR ''{'' then
             (case skip_ws cs of
                [] \<Rightarrow> None
              | d # ds \<Rightarrow> if d = CHR ''}'' then Some (JObj [], ds) else members n [] (d # ds))
           else if c = CHR ''['' then
             (case skip_ws cs of
                [] \<Rightarrow> None
              | d # ds \<Rightarrow> if d = CHR '']'' then Some (JArr [], ds) else elements n [] (d # ds))
           else if c = CHR 0x22 then map_option (\<lambda>(t, r). (JStr t, r)) (string_chars cs)
           else if c = CHR ''t'' then map_option (\<lambda>r. (JBool True, r)) (keyword ''true'' (c # cs))
           else if c = CHR ''f'' then map_option (\<lambda>r. (JBool False, r)) (keyword ''false'' (c # cs))
           else if c = CHR ''n'' then map_option (\<lambda>r. (JNull, r)) (keyword ''null'' (c # cs))
           else map_option (\<lambda>(t, r). (JNum t, r)) (number (c # cs))))"
| "members 0 acc s = None"
| "members (Suc n) acc s =
     (case skip_ws s of
        [] \<Rightarrow> None
      | c # cs \<Rightarrow>
          (if c \<noteq> CHR 0x22 then None
           else
             (case string_chars cs of
                None \<Rightarrow> None
              | Some (k, r1) \<Rightarrow>
                  (case skip_ws r1 of
                     [] \<Rightarrow> None
                   | d # ds \<Rightarrow>
                       (if d \<noteq> CHR '':'' then None
                        else
                          (case value_json n ds of
                             None \<Rightarrow> None
                           | Some (v, r2) \<Rightarrow>
                               (case skip_ws r2 of
                                  [] \<Rightarrow> None
                                | e # es \<Rightarrow>
                                    (if e = CHR '','' then members n (acc @ [(k, v)]) es
                                     else if e = CHR ''}'' then Some (JObj (acc @ [(k, v)]), es)
                                     else None))))))))"
| "elements 0 acc s = None"
| "elements (Suc n) acc s =
     (case value_json n s of
        None \<Rightarrow> None
      | Some (v, r) \<Rightarrow>
          (case skip_ws r of
             [] \<Rightarrow> None
           | e # es \<Rightarrow>
               (if e = CHR '','' then elements n (acc @ [v]) es
                else if e = CHR '']'' then Some (JArr (acc @ [v]), es)
                else None)))"

definition JSON_parse :: "string \<Rightarrow> json option" where
  "JSON_parse text =
     (case value_json (Suc (length text)) text of
        None \<Rightarrow> None
      | Some (j, rest) \<Rightarrow> if skip_ws rest = [] then Some j else None)"

section \<open>ScafflaterOptions (options/index.js)\<close>

text \<open>
  The logger imported from \<^verbatim>\<open>../logger/index.js\<close> is one object shared by every
  instance; it is the object at address \<open>0\<close> of the heap.
\<close>

definition logger :: val where
  "logger = Ref 0"

text \<open>The class fields with their initialisers, in the order of the class body.\<close>

definition annotationTemplate :: string where
  "annotationTemplate =
     ''{{#lineComment this}}{{{options.startRegionMarker}}}{{/lineComment}}\<newline>'' @
     ''{{#lineComment this}}This code was generated by scafflater{{/lineComment}}\<newline>'' @
     ''{{#lineComment this}}@template {{{template.name}}} (v{{{template.version}}}){{/lineComment}}\<newline>'' @
     ''{{#lineComment this}}@partial {{{partial.name}}}{{/lineComment}}\<newline>'' @
     ''{{#each parameters }}\<newline>'' @
     ''{{#lineComment this}}@'' @ ''{{{@key}}} {{{this}}}{{/lineComment}}\<newline>'' @
     ''{{/each}}\<newline>'' @
     ''\<newline>'' @
     ''{{{content}}}\<newline>'' @
     ''\<newline>'' @
     ''{{#lineComment this}}{{{options.endRegionMarker}}}{{/lineComment}}''"

definition field_initialisers :: props where
  "field_initialisers =
     map_of
       [(''lineCommentTemplate'', Str ''# {{{comment}}}''),
        (''startRegionMarker'', Str ''@scf-region''),
        (''endRegionMarker'', Str ''@end-scf-region''),
        (''optionMarker'', Str ''@scf-option''),
        (''targetName'', Null),
        (''ignore'', Undefined),
        (''logRun'', Bool True),
        (''annotate'', Bool False),
        (''annotationTemplate'', Str annotationTemplate),
        (''appendStrategy'', Str ''append''),
        (''mode'', Str ''prod''),
        (''processors'', Json (JArr [JStr ''./processors/handlebars-processor''])),
        (''appenders'', Json (JArr [JStr ''./appenders/region-appender'', JStr ''./appenders/appender''])),
        (''arrayAppendStrategy'', Str ''combine''),
        (''scfFolderName'', Str ''.scafflater''),
        (''scfFileName'', Str ''scafflater.jsonc''),
        (''initFolderName'', Str ''init''),
        (''partialsFolderName'', Str ''partials''),
        (''hooksFolderName'', Str ''hooks''),
        (''helpersFolderName'', Str ''helpers''),
        (''extensionFolderName'', Str ''extension''),
        (''cacheStorage'', Str ''tempDir''),
        (''cacheStorages'',
           Json (JObj [(''tempDir'', JStr ''./temp-dir-cache/index.js''),
                       (''homeDir'', JStr ''./home-dir-cache/index.js'')])),
        (''source'', Str ''isomorphicGit''),
        (''sources'',
           Json (JObj [(''octokit'', JStr ''./octokit-template-source/index.js''),
                       (''git'', JStr ''./git-template-source/index.js''),
                       (''githubClient'', JStr ''./github-client-template-source/index.js''),
                       (''isomorphicGit'', JStr ''./isomorphic-git-template-source/index.js''),
                       (''localFolder'', JStr ''./local-folder-template-source/index.js''),
                       (''package'', JStr ''./package-template-source/index.js'')])),
        (''githubBaseUrlApi'', Str ''https://api.github.com''),
        (''githubBaseUrl'', Str ''https://github.com''),
        (''githubUsername'', Null),
        (''githubPassword'', Null),
        (''logger'', logger)]"

text \<open>Reading a property of an object: \<^verbatim>\<open>undefined\<close> when the object has none of the name.\<close>

definition get :: "props \<Rightarrow> string \<Rightarrow> val" where
  "get obj k = (case obj k of None \<Rightarrow> Undefined | Some v \<Rightarrow> v)"

text \<open>
  \<^verbatim>\<open>for (const option in options) { this[option] = options[option]; }\<close>: every
  enumerable property of \<open>options\<close> is assigned to \<open>this\<close>. An assignment to the name
  \<^verbatim>\<open>__proto__\<close> goes to the setter every object inherits and creates no property.
\<close>

definition assign_options :: "props \<Rightarrow> props \<Rightarrow> props" where
  "assign_options this options = (\<lambda>k. if k = ''__proto__'' then this k else (this ++ options) k)"

text \<open>
  \<^verbatim>\<open>this.logger.level = "debug"\<close> on the value \<open>v\<close> of \<^verbatim>\<open>this.logger\<close>. For an object of
  the heap the property is written; \<^verbatim>\<open>undefined\<close>, \<^verbatim>\<open>null\<close> and, the module being
  strict code, the primitive values raise a TypeError. An array or object that came out
  of JSON takes the property too, which the immutable data of the model does not record.
\<close>

fun set_level :: "val \<Rightarrow> heap \<Rightarrow> error + heap" where
  "set_level (Ref l) h = Inr (h[l := (obj_at h l)(''level'' \<mapsto> Str ''debug'')])"
| "set_level (Json (JObj kvs)) h = Inr h"
| "set_level (Json (JArr xs)) h = Inr h"
| "set_level Undefined h = Inl (TypeError ''Cannot set properties of undefined (setting level)'')"
| "set_level (Json JNull) h = Inl (TypeError ''Cannot set properties of null (setting level)'')"
| "set_level (Json j) h = Inl (TypeError ''Cannot create property level on a primitive value'')"

text \<open>
  \<^verbatim>\<open>new ScafflaterOptions(options)\<close>: the fields are initialised, then the
  constructor body assigns the properties of \<open>options\<close> and, in debug mode, sets the
  level of the logger. The instance is a new object, placed after the objects the heap
  has; a logger that is an object of the heap is one of these, so the level is written
  to the heap as it was. The result is the address of the instance and the new heap.
\<close>

definition ScafflaterOptions_new :: "props \<Rightarrow> heap \<Rightarrow> error + (nat \<times> heap)" where
  "ScafflaterOptions_new options h =
     (let this = assign_options field_initialisers options
      in if get this ''mode'' = Str ''debug''
         then (case set_level (get this ''logger'') h of
                 Inl e \<Rightarrow> Inl e
               | Inr h' \<Rightarrow> Inr (length h, h' @ [this]))
         else Inr (length h, h @ [this]))"

subsection \<open>getFolderOptions\<close>

text \<open>
  The collaborators are parameters: \<open>join\<close> is \<^verbatim>\<open>path.join\<close>; \<open>fs\<close> is the file system
  as \<^verbatim>\<open>fsUtil.pathExists\<close> and \<^verbatim>\<open>fsUtil.readJSON\<close> show it: no entry for a path that
  does not exist, the parsed document or the error of reading it for one that does.
  \<^verbatim>\<open>path.join\<close> refuses an argument that is not a string. The debug message written
  to the logger of the context is left out: the context is taken to carry a logger, and
  writing the message changes neither the heap nor the result.
\<close>

definition path_arg :: "val \<Rightarrow> error + string" where
  "path_arg v =
     (case v of
        Json (JStr s) \<Rightarrow> Inr s
      | _ \<Rightarrow> Inl (TypeError ''The path argument must be of type string''))"

text \<open>
  \<^verbatim>\<open>info.options\<close> and \<^verbatim>\<open>info.config\<close> on a parsed document: a TypeError on \<^verbatim>\<open>null\<close>,
  the member of an object, \<^verbatim>\<open>undefined\<close> on anything else (the names read are no index
  and no built-in property).
\<close>

fun read_member :: "json \<Rightarrow> string \<Rightarrow> error + val" where
  "read_member JNull k = Inl (TypeError (''Cannot read properties of null (reading '' @ k @ '')''))"
| "read_member (JObj kvs) k = Inr (get (member_table kvs) k)"
| "read_member j k = Inr Undefined"

definition getFolderOptions ::
  "(string \<Rightarrow> string \<Rightarrow> string) \<Rightarrow> (string \<rightharpoonup> error + json) \<Rightarrow> heap \<Rightarrow> nat \<Rightarrow> string
     \<Rightarrow> error + (nat \<times> heap)" where
  "getFolderOptions join fs h this folderPath =
     (let result = own_props h (Ref this)
      in case path_arg (get (obj_at h this) ''scfFileName'') of
           Inl e \<Rightarrow> Inl e
         | Inr scfFileName \<Rightarrow>
             (case fs (join folderPath scfFileName) of
                None \<Rightarrow> ScafflaterOptions_new result h
              | Some (Inl e) \<Rightarrow> Inl e
              | Some (Inr info) \<Rightarrow>
                  (case read_member info ''options'' of
                     Inl e \<Rightarrow> Inl e
                   | Inr options \<Rightarrow>
                       if truthy options
                       then ScafflaterOptions_new (result ++ own_props h options) h
                       else ScafflaterOptions_new result h)))"

subsection \<open>ConfigProvider.mergeFolderConfig (config-provider/index.js)\<close>

text \<open>
  The older form of the same step, on plain configuration objects: the configuration is
  an object passed by value, the manifest member is \<^verbatim>\<open>config\<close>, and the result is the
  merged plain object.
\<close>

definition mergeFolderConfig ::
  "(string \<Rightarrow> string \<Rightarrow> string) \<Rightarrow> (string \<rightharpoonup> error + json) \<Rightarrow> string \<Rightarrow> props \<Rightarrow> error + props" where
  "mergeFolderConfig join fs folderPath config =
     (let result = config
      in case path_arg (get config ''scfFileName'') of
           Inl e \<Rightarrow> Inl e
         | Inr scfFileName \<Rightarrow>
             (case fs (join folderPath scfFileName) of
                None \<Rightarrow> Inr result
              | Some (Inl e) \<Rightarrow> Inl e
              | Some (Inr info) \<Rightarrow>
                  (case read_member info ''config'' of
                     Inl e \<Rightarrow> Inl e
                   | Inr c \<Rightarrow> if truthy c then Inr (result ++ own_props [] c) else Inr result)))"

subsection \<open>Regions\<close>

text \<open>
  A region as \<open>getConfigFromString\<close> reads it: the offsets of its two markers and of its
  content. \<^verbatim>\<open>RegionProvider.getRegions\<close> is a parameter of the functions that call it:
  it gets the options and the text and returns the regions or throws.
\<close>

record region =
  startOffset :: nat
  endOffset :: nat
  contentStart :: nat
  contentEnd :: nat

type_synonym region_provider = "props \<Rightarrow> string \<Rightarrow> error + region list"

text \<open>
  \<^verbatim>\<open>regions.findIndex((r) => r.contentStart <= c.index && r.contentEnd >= c.index) >= 0\<close>
\<close>

definition in_region :: "region list \<Rightarrow> nat \<Rightarrow> bool" where
  "in_region regions i = list_ex (\<lambda>r. contentStart r \<le> i \<and> contentEnd r \<ge> i) regions"

subsection \<open>getConfigFromString, getFileOptions, stripConfig\<close>

text \<open>
  What \<^verbatim>\<open>JSON.parse(c.groups.json)\<close> gives for a match: a group that took no part in
  the match is \<^verbatim>\<open>undefined\<close>, which the parser refuses.
\<close>

definition parse_payload :: "(string \<Rightarrow> json option) \<Rightarrow> rmatch \<Rightarrow> json option" where
  "parse_payload parse c = (case json c of None \<Rightarrow> None | Some text \<Rightarrow> parse text)"

text \<open>
  The message of the \<^verbatim>\<open>catch\<close> block: the pattern has no group \<^verbatim>\<open>name\<close>, so
  \<^verbatim>\<open>c.groups.name\<close> is \<^verbatim>\<open>undefined\<close>.
\<close>

definition parse_error :: error where
  "parse_error = Error (''Could not parse option '' @ [CHR 0x27] @ template_text Undefined @ [CHR 0x27])"

text \<open>
  \<^verbatim>\<open>for (const c of configs) { try { ... } catch (error) { throw ... } }\<close>, with
  \<open>newConfig\<close> as the loop variable: a match inside a region is passed over before its
  payload is looked at; the payload of any other is parsed and spread over \<open>newConfig\<close>.
\<close>

fun config_loop ::
  "(string \<Rightarrow> json option) \<Rightarrow> region list \<Rightarrow> props \<Rightarrow> rmatch list \<Rightarrow> error + props" where
  "config_loop parse regions newConfig [] = Inr newConfig"
| "config_loop parse regions newConfig (c # configs) =
     (if in_region regions (index c) then config_loop parse regions newConfig configs
      else
        (case parse_payload parse c of
           None \<Rightarrow> Inl parse_error
         | Some j \<Rightarrow> config_loop parse regions (newConfig ++ json_props j) configs))"

text \<open>The matches of the option pattern in \<open>str\<close>, for the marker of the receiver.\<close>

definition configs_of :: "props \<Rightarrow> string \<Rightarrow> rmatch list" where
  "configs_of this str = matchAll (configRegex (template_text (get this ''optionMarker''))) str"

definition getConfigFromString ::
  "(string \<Rightarrow> json option) \<Rightarrow> region_provider \<Rightarrow> heap \<Rightarrow> nat \<Rightarrow> string \<Rightarrow> error + (nat \<times> heap)" where
  "getConfigFromString parse getRegions h this str =
     (let configs = configs_of (obj_at h this) str
      in case getRegions (obj_at h this) str of
           Inl e \<Rightarrow> Inl e
         | Inr regions \<Rightarrow>
             (case config_loop parse regions (own_props h (Ref this)) configs of
                Inl e \<Rightarrow> Inl e
              | Inr newConfig \<Rightarrow> ScafflaterOptions_new newConfig h))"

text \<open>
  Options resolution as the specification words it: the directives whose offset lies in
  no region survive; their payloads are merged over the current options in file order,
  a later one over an earlier one; a payload that does not parse is an error.
\<close>

definition outside :: "region list \<Rightarrow> rmatch list \<Rightarrow> rmatch list" where
  "outside regions configs = filter (\<lambda>c. \<not> in_region regions (index c)) configs"

definition resolve_directives ::
  "(string \<Rightarrow> json option) \<Rightarrow> region list \<Rightarrow> props \<Rightarrow> rmatch list \<Rightarrow> error + props" where
  "resolve_directives parse regions current configs =
     (case those (map (parse_payload parse) (outside regions configs)) of
        None \<Rightarrow> Inl parse_error
      | Some payloads \<Rightarrow> Inr (foldl (++) current (map json_props payloads)))"

text \<open>
  \<open>getFileOptions\<close> reads the file and resolves its content. The files are a table
  from path to content; \<^verbatim>\<open>fsUtil.readFileContent\<close> fails on a path that has none. The
  function returns its result, or the exception of reading or of \<open>getConfigFromString\<close>,
  with the files as it leaves them; it has no statement that writes one. The debug
  message is left out, as in \<open>getFolderOptions\<close>.
\<close>

type_synonym text_files = "string \<rightharpoonup> string"

definition readFileContent :: "text_files \<Rightarrow> string \<Rightarrow> error + string" where
  "readFileContent files p =
     (case files p of None \<Rightarrow> Inl (Error (''ENOENT: '' @ p)) | Some content \<Rightarrow> Inr content)"

definition getFileOptions ::
  "(string \<Rightarrow> json option) \<Rightarrow> region_provider \<Rightarrow> text_files \<Rightarrow> heap \<Rightarrow> nat \<Rightarrow> string
     \<Rightarrow> (error + (nat \<times> heap)) \<times> text_files" where
  "getFileOptions parse getRegions files h this filePath =
     (case readFileContent files filePath of
        Inl e \<Rightarrow> (Inl e, files)
      | Inr fileContent \<Rightarrow> (getConfigFromString parse getRegions h this fileContent, files))"

text \<open>The matches of the pattern of \<open>stripConfig\<close> in \<open>str\<close>, for the marker of the receiver.\<close>

definition strip_matches :: "props \<Rightarrow> string \<Rightarrow> rmatch list" where
  "strip_matches this str = matchAll (stripRegex (template_text (get this ''optionMarker''))) str"

text \<open>
  The text \<open>s\<close>, which starts at offset \<open>i\<close>, with the span of every match of the list
  cut out: what stripping is to do with the matches it is given.
\<close>

fun cut :: "rmatch list \<Rightarrow> nat \<Rightarrow> string \<Rightarrow> string" where
  "cut [] i s = s"
| "cut (c # cs) i s =
     take (index c - i) s @
     cut cs (index c + length (matched c)) (drop (index c - i + length (matched c)) s)"

definition stripConfig :: "heap \<Rightarrow> nat \<Rightarrow> string \<Rightarrow> string" where
  "stripConfig h this str =
     replace_from (stripRegex (template_text (get (obj_at h this) ''optionMarker''))) str"

subsection \<open>The region scanner\<close>

text \<open>
  Modelled from the spec: \<^verbatim>\<open>RegionProvider.getRegions\<close>
  (generator/region-provider/index.js) is not among the sources. The specification says:
  markers are single-line tokens; they are matched strictly in textual order, the first
  start with the first end after it; a start marker with no end marker before the end of
  the text or before the next start marker is a MalformedRegionError; a region has the
  offsets of its markers and of its content. Here a marker line is a line that contains
  the marker, the content of a region starts after the line of its start marker and ends
  where the line of its end marker starts.
\<close>

function lines_from :: "nat \<Rightarrow> string \<Rightarrow> (nat \<times> string) list" where
  "lines_from i s =
     (case dropWhile (\<lambda>c. c \<noteq> CHR 0x0A) s of
        [] \<Rightarrow> [(i, s)]
      | c # rest \<Rightarrow>
          (i, takeWhile (\<lambda>c. c \<noteq> CHR 0x0A) s) #
          (if length rest < length s then lines_from (i + (length s - length rest)) rest else []))"
  by pat_completeness auto
termination
  by (relation "measure (\<lambda>(i, s). length s)") auto

declare lines_from.simps [simp del]

fun contains :: "string \<Rightarrow> string \<Rightarrow> bool" where
  "contains m [] = (m = [])"
| "contains m (c # cs) = (if take (length m) (c # cs) = m then True else contains m cs)"

fun scan_lines :: "string \<Rightarrow> string \<Rightarrow> (nat \<times> nat) option \<Rightarrow> (nat \<times> string) list \<Rightarrow> error + region list" where
  "scan_lines sm em None [] = Inr []"
| "scan_lines sm em (Some opened) [] = Inl MalformedRegionError"
| "scan_lines sm em opened ((i, l) # ls) =
     (if contains em l then
        (case opened of
           None \<Rightarrow> scan_lines sm em None ls
         | Some (so, cs) \<Rightarrow>
             (case scan_lines sm em None ls of
                Inl e \<Rightarrow> Inl e
              | Inr rs \<Rightarrow> Inr (\<lparr>startOffset = so, endOffset = i, contentStart = cs, contentEnd = i\<rparr> # rs)))
      else if contains sm l then
        (case opened of
           None \<Rightarrow> scan_lines sm em (Some (i, i + length l + 1)) ls
         | Some x \<Rightarrow> Inl MalformedRegionError)
      else scan_lines sm em opened ls)"

definition scan_regions :: region_provider where
  "scan_regions options text =
     scan_lines (template_text (get options ''startRegionMarker''))
       (template_text (get options ''endRegionMarker'')) None (lines_from 0 text)"

section \<open>Processor.getProcessor (generator/processors/processor.js)\<close>

text \<open>
  \<^verbatim>\<open>switch ('region-processor') { case value: return new RegionProcessor()
  default: throw new Error(`No processor found: ${name}`) }\<close>.
  The discriminant is the string literal and the case label is the identifier
  \<^verbatim>\<open>value\<close>. The file declares neither \<^verbatim>\<open>value\<close> nor \<^verbatim>\<open>RegionProcessor\<close> and imports
  nothing, so both are looked up among the properties of the global object, \<open>globals\<close>;
  reading an identifier that is bound nowhere raises a ReferenceError. The object
  \<^verbatim>\<open>new C()\<close> creates is \<open>New a\<close> for the class at address \<open>a\<close>.
\<close>

datatype processor_object = New nat

definition getProcessor :: "props \<Rightarrow> string \<Rightarrow> error + processor_object" where
  "getProcessor globals name =
     (case globals ''value'' of
        None \<Rightarrow> Inl (ReferenceError ''value is not defined'')
      | Some value \<Rightarrow>
          if Str ''region-processor'' = value then
            (case globals ''RegionProcessor'' of
               None \<Rightarrow> Inl (ReferenceError ''RegionProcessor is not defined'')
             | Some (Ref a) \<Rightarrow> Inr (New a)
             | Some v \<Rightarrow> Inl (TypeError ''RegionProcessor is not a constructor''))
          else Inl (Error (''No processor found: '' @ name)))"

section \<open>Scafflater.runPartial\<close>

text \<open>
  The manifest \<^verbatim>\<open>{ template: { name, version }, partials: [ { path, parameters } ] }\<close>
  as a record. \<open>partials\<close> is \<open>None\<close> when the document has no list there (the test
  \<^verbatim>\<open>!scfConfig.partials\<close> holds). The parameters are a value of any type.
\<close>

record template_info =
  name :: string
  version :: string

record 'p applied_record =
  path :: string
  parameters :: 'p

record 'p manifest =
  template :: template_info
  partials :: "'p applied_record list option"

text \<open>
  The JSON documents of the file system, by path, with \<^verbatim>\<open>fsUtil.readJsonSync\<close> and
  \<^verbatim>\<open>fsUtil.writeJSONSync\<close>.
\<close>

type_synonym 'p files = "string \<rightharpoonup> 'p manifest"

definition readJsonSync :: "'p files \<Rightarrow> string \<Rightarrow> error + 'p manifest" where
  "readJsonSync files p = (case files p of None \<Rightarrow> Inl (Error (''ENOENT: '' @ p)) | Some m \<Rightarrow> Inr m)"

definition writeJSONSync :: "'p files \<Rightarrow> string \<Rightarrow> 'p manifest \<Rightarrow> 'p files" where
  "writeJSONSync files p m = files(p \<mapsto> m)"

text \<open>The context \<^verbatim>\<open>ctx\<close> handed to the generator (its \<^verbatim>\<open>config\<close> is a constant).\<close>

record ('i, 'p) generation_context =
  partial :: 'i
  partialPath :: string
  ctx_parameters :: 'p
  targetPath :: string
  ctx_template :: "'p manifest"
  templatePath :: string

text \<open>
  The template manager and the generator are parameters. Each may read and write files
  and may throw, so each takes the files and returns its result, or its exception, with
  the files as it left them. \<open>scfFileName\<close> is \<^verbatim>\<open>this.config.scfFileName\<close>.
\<close>

definition runPartial ::
  "(string \<Rightarrow> string \<Rightarrow> string)
   \<Rightarrow> (string \<Rightarrow> string \<Rightarrow> string \<Rightarrow> 'p files \<Rightarrow> (error + ('i \<times> string)) \<times> 'p files)
   \<Rightarrow> (string \<Rightarrow> string \<Rightarrow> 'p files \<Rightarrow> (error + string) \<times> 'p files)
   \<Rightarrow> (('i, 'p) generation_context \<Rightarrow> 'p files \<Rightarrow> (error + unit) \<times> 'p files)
   \<Rightarrow> string \<Rightarrow> string \<Rightarrow> 'p \<Rightarrow> string \<Rightarrow> 'p files \<Rightarrow> (error + unit) \<times> 'p files" where
  "runPartial join getPartial getTemplatePath generate scfFileName partialPath' params targetPath' files =
     (case readJsonSync files (join targetPath' scfFileName) of
        Inl e \<Rightarrow> (Inl e, files)
      | Inr scfConfig \<Rightarrow>
          (case getPartial partialPath' (name (template scfConfig)) (version (template scfConfig)) files of
             (Inl e, files1) \<Rightarrow> (Inl e, files1)
           | (Inr partialInfo, files1) \<Rightarrow>
               (case getTemplatePath (name (template scfConfig)) (version (template scfConfig)) files1 of
                  (Inl e, files2) \<Rightarrow> (Inl e, files2)
                | (Inr templatePath', files2) \<Rightarrow>
                    (case readJsonSync files2 (join templatePath' scfFileName) of
                       Inl e \<Rightarrow> (Inl e, files2)
                     | Inr templateScf \<Rightarrow>
                         (case generate
                                 \<lparr>partial = fst partialInfo, partialPath = snd partialInfo,
                                  ctx_parameters = params, targetPath = targetPath',
                                  ctx_template = templateScf, templatePath = templatePath'\<rparr> files2 of
                            (Inl e, files3) \<Rightarrow> (Inl e, files3)
                          | (Inr u, files3) \<Rightarrow>
                              (Inr (),
                               writeJSONSync files3 (join targetPath' scfFileName)
                                 (scfConfig\<lparr>partials :=
                                    Some ((case partials scfConfig of None \<Rightarrow> [] | Some ps \<Rightarrow> ps) @
                                          [\<lparr>path = name (template scfConfig) @ ''/'' @ partialPath',
                                            parameters = params\<rparr>])\<rparr>)))))))"

section \<open>Concrete inputs\<close>

text \<open>
  The inputs the theorems are evaluated on. \<open>heap0\<close> holds the logger at address \<open>0\<close>
  and, at address \<open>1\<close>, an instance with the fields as the class initialises them.
  \<open>region_text\<close> has a directive inside a region and one after it, \<open>two_directives\<close>
  sets one option twice, \<open>unclosed_payload\<close> is the example of the specification and
  \<open>bad_payload\<close> a payload the pattern matches and the parser refuses.
\<close>

definition heap0 :: heap where
  "heap0 = [Map.empty, field_initialisers]"

definition region_text :: string where
  "region_text =
     ''# @scf-region\<newline># @scf-option {\"a\":1}\<newline>x\<newline># @end-scf-region\<newline># @scf-option {\"b\":2}\<newline>''"

definition two_directives :: string where
  "two_directives =
     ''# @scf-option {\"appendStrategy\":\"ignore\"}\<newline># @scf-option {\"appendStrategy\":\"replace\"}\<newline>''"

definition unclosed_payload :: string where
  "unclosed_payload = ''@scf-option {bad json''"

definition bad_payload :: string where
  "bad_payload = ''@scf-option {bad: json}''"

definition plain_text :: string where
  "plain_text = ''line one\<newline>line two''"

text \<open>A manifest with folder options that name one processor, under the default file name.\<close>

definition folder_manifest :: json where
  "folder_manifest =
     JObj [(''template'', JObj [(''name'', JStr ''t''), (''version'', JStr ''1'')]),
           (''options'', JObj [(''processors'', JArr [JStr ''./processors/other'']),
                               (''annotate'', JBool True)])]"

definition slash_join :: "string \<Rightarrow> string \<Rightarrow> string" where
  "slash_join a b = a @ ''/'' @ b"

definition folder_fs :: "string \<rightharpoonup> error + json" where
  "folder_fs = [''tpl/scafflater.jsonc'' \<mapsto> Inr folder_manifest]"

text \<open>
  A target whose manifest has an empty list of applied partials, a template cache that
  answers without touching a file, a generator that succeeds and one that throws.
\<close>

definition manifest0 :: "string manifest" where
  "manifest0 = \<lparr>template = \<lparr>name = ''t'', version = ''1''\<rparr>, partials = Some []\<rparr>"

definition files0 :: "string files" where
  "files0 = [''./_scf.json'' \<mapsto> manifest0, ''cache/t/_scf.json'' \<mapsto> manifest0]"

definition getPartial0 :: "string \<Rightarrow> string \<Rightarrow> string \<Rightarrow> string files \<Rightarrow> (error + (unit \<times> string)) \<times> string files" where
  "getPartial0 p n v f = (Inr ((), ''cache/'' @ n @ ''/_partials/'' @ p), f)"

definition getTemplatePath0 :: "string \<Rightarrow> string \<Rightarrow> string files \<Rightarrow> (error + string) \<times> string files" where
  "getTemplatePath0 n v f = (Inr (''cache/'' @ n), f)"

definition generate_ok :: "(unit, string) generation_context \<Rightarrow> string files \<Rightarrow> (error + unit) \<times> string files" where
  "generate_ok ctx f = (Inr (), f)"

definition generate_fails :: "(unit, string) generation_context \<Rightarrow> string files \<Rightarrow> (error + unit) \<times> string files" where
  "generate_fails ctx f = (Inl (Error ''render failed''), f)"

text \<open>Two processors: one adds white space, one counts in the context and adds brackets.\<close>

definition pad :: "nat processor" where
  "pad c s = Inr (c, ''  '' @ s @ ''  '')"

definition bracket :: "nat processor" where
  "bracket c s = Inr (Suc c, '' <'' @ s @ ''> '')"




section \<open>Properties of the pipeline\<close>

lemma stage_Inl: "stage (Inl e) p = Inl e"
  by (simp add: stage_def)

lemma stage_Inr:
  "stage (Inr (c, s)) p = (case p c s of Inl e \<Rightarrow> Inl e | Inr (c', r) \<Rightarrow> Inr (c', trim r))"
  by (simp add: stage_def)

lemma foldl_stage_Inl: "foldl stage (Inl e) ps = Inl e"
  by (induction ps) (simp_all add: stage_Inl)

lemma pipeline_loop_fold:
  "pipeline_loop ps c s = (case foldl stage (Inr (c, s)) ps of Inl e \<Rightarrow> Inl e | Inr (c', s') \<Rightarrow> Inr s')"
proof (induction ps arbitrary: c s)
  case Nil
  show ?case by simp
next
  case (Cons p ps)
  show ?case
  proof (cases "p c s")
    case (Inl e)
    then show ?thesis by (simp add: stage_Inr foldl_stage_Inl)
  next
    case (Inr cr)
    obtain c' r where cr: "cr = (c', r)" by (cases cr)
    with Inr Cons.IH [of c' "trim r"] show ?thesis by (simp add: stage_Inr)
  qed
qed

text \<open>
  C6. Running the pipeline is the left fold of the stages in list order: every stage
  receives the context returned by the stage before it and that stage's trimmed result,
  and the output is the trimmed result of the last stage. A stage is neither skipped nor
  moved; the only way a stage does not run is that an earlier one threw.
\<close>

theorem runProcessorsPipeline_is_fold:
  "runProcessorsPipeline processors context input = pipeline_fold processors context input
   \<and> (runProcessorsPipeline (ps @ [p]) context input = Inr out \<longrightarrow>
        (\<exists>c s c' r. foldl stage (Inr (context, input)) ps = Inr (c, s) \<and> p c s = Inr (c', r) \<and> out = trim r))"
proof (intro conjI impI)
  show "runProcessorsPipeline processors context input = pipeline_fold processors context input"
    unfolding runProcessorsPipeline_def pipeline_fold_def by (rule pipeline_loop_fold)
next
  assume run: "runProcessorsPipeline (ps @ [p]) context input = Inr out"
  show "\<exists>c s c' r. foldl stage (Inr (context, input)) ps = Inr (c, s) \<and> p c s = Inr (c', r) \<and> out = trim r"
  proof (cases "foldl stage (Inr (context, input)) ps")
    case (Inl e)
    with run show ?thesis
      by (simp add: runProcessorsPipeline_def pipeline_loop_fold stage_Inl)
  next
    case (Inr cs)
    obtain c s where cs: "cs = (c, s)" by (cases cs)
    with run Inr show ?thesis
      by (auto simp: runProcessorsPipeline_def pipeline_loop_fold stage_Inr split: sum.splits)
  qed
qed

theorem runProcessorsPipeline_is_fold_witness:
  "runProcessorsPipeline [pad, bracket] (0 :: nat) ''a '' = Inr ''<a>''
   \<and> foldl stage (Inr (0 :: nat, ''a '')) [pad] = Inr (0, ''a'')
   \<and> bracket 0 ''a'' = Inr (Suc 0, '' <a> '')"
proof -
  have run: "runProcessorsPipeline ([pad] @ [bracket]) (0 :: nat) ''a '' = Inr ''<a>''"
    by code_simp
  from runProcessorsPipeline_is_fold [THEN conjunct2, of "[pad]" bracket 0 "''a ''" "''<a>''"] run
  obtain c s c' r where "foldl stage (Inr (0 :: nat, ''a '')) [pad] = Inr (c, s)" "bracket c s = Inr (c', r)"
    by auto
  have "foldl stage (Inr (0 :: nat, ''a '')) [pad] = Inr (0, ''a'')" by code_simp
  moreover have "bracket 0 ''a'' = Inr (Suc 0, '' <a> '')" by code_simp
  ultimately show ?thesis using run by simp
qed

text \<open>
  C10. With no processor the loop body never runs and \<open>input\<close> is returned as it came,
  leading and trailing white space included.
\<close>

theorem runProcessorsPipeline_empty:
  "runProcessorsPipeline [] context input = Inr input"
  by (simp add: runProcessorsPipeline_def)

section \<open>Lemmas about the matcher, the loop and the constructor\<close>

lemma config_loop_resolve:
  "config_loop parse regions cfg cs = resolve_directives parse regions cfg cs"
proof (induction cs arbitrary: cfg)
  case Nil
  show ?case by (simp add: resolve_directives_def outside_def)
next
  case (Cons c cs)
  show ?case
  proof (cases "in_region regions (index c)")
    case True
    with Cons.IH [of cfg] show ?thesis by (simp add: resolve_directives_def outside_def)
  next
    case False
    show ?thesis
    proof (cases "parse_payload parse c")
      case None
      with False show ?thesis by (simp add: resolve_directives_def outside_def)
    next
      case (Some j)
      with False Cons.IH [of "cfg ++ json_props j"] show ?thesis
        by (simp add: resolve_directives_def outside_def split: option.splits)
    qed
  qed
qed

lemma member_table_Json: "member_table kvs k = Some v \<Longrightarrow> \<exists>j. v = Json j"
  by (auto simp: member_table_def dest!: map_of_SomeD)

lemma json_props_Json: "json_props j k = Some v \<Longrightarrow> \<exists>j'. v = Json j'"
  by (cases j) (auto dest: member_table_Json)

lemma new_result:
  assumes "ScafflaterOptions_new opts h = Inr (r, h')"
  shows "r = length h" and "length h' = Suc (length h)"
    and "obj_at h' r = assign_options field_initialisers opts"
proof -
  let ?t = "assign_options field_initialisers opts"
  have *: "set_level v h = Inr h2 \<Longrightarrow> length h2 = length h" for v h2
    by (cases "(v, h)" rule: set_level.cases) auto
  from assms show "r = length h"
    by (auto simp: ScafflaterOptions_new_def Let_def split: if_splits sum.splits)
  from assms * show "length h' = Suc (length h)"
    by (auto simp: ScafflaterOptions_new_def Let_def split: if_splits sum.splits)
  from assms * show "obj_at h' r = ?t"
    by (auto simp: ScafflaterOptions_new_def Let_def obj_at_def nth_append split: if_splits sum.splits)
qed

lemma set_level_frame:
  assumes "set_level v h = Inr h2" and "v \<noteq> Ref a"
  shows "h2 ! a = h ! a"
  using assms by (cases "(v, h)" rule: set_level.cases) auto

lemma new_frame:
  assumes "ScafflaterOptions_new opts h = Inr (r, h')" and "a < length h"
    and "get (assign_options field_initialisers opts) ''logger'' \<noteq> Ref a"
  shows "h' ! a = h ! a"
proof -
  have *: "set_level v h = Inr h2 \<Longrightarrow> length h2 = length h" for v h2
    by (cases "(v, h)" rule: set_level.cases) auto
  from assms * show ?thesis
    by (auto simp: ScafflaterOptions_new_def Let_def nth_append split: if_splits sum.splits
        dest: set_level_frame)
qed





lemma config_loop_Ref:
  assumes "config_loop parse regions cfg cs = Inr cfg'" and "cfg' k = Some (Ref a)"
  shows "cfg k = Some (Ref a)"
  using assms
proof (induction cs arbitrary: cfg)
  case Nil
  then show ?case by simp
next
  case (Cons c cs)
  show ?case
  proof (cases "in_region regions (index c)")
    case True
    with Cons show ?thesis by simp
  next
    case False
    with Cons.prems(1) obtain j where run: "config_loop parse regions (cfg ++ json_props j) cs = Inr cfg'"
      by (auto split: option.splits)
    from Cons.IH [OF run Cons.prems(2)] have "(cfg ++ json_props j) k = Some (Ref a)" .
    then show ?thesis by (auto simp: map_add_def split: option.splits dest: json_props_Json)
  qed
qed

lemma matchAll_from_index:
  "sorted_wrt (<) (map index (matchAll_from r i s)) \<and> (\<forall>c\<in>set (matchAll_from r i s). i \<le> index c)"
proof (induction r i s rule: matchAll_from.induct)
  case (1 r i s)
  show ?case
  proof (cases "exec_at r s")
    case None
    show ?thesis
    proof (cases s)
      case Nil
      with None show ?thesis by (subst (1 2) matchAll_from.simps) simp
    next
      case (Cons c s')
      from "1.IH"(1) [OF None Cons] None Cons show ?thesis
        by (subst (1 2) matchAll_from.simps) (auto simp: Suc_le_eq dest: Suc_leD)
    qed
  next
    case (Some x)
    obtain rest cap where x: "x = (rest, cap)" by (cases x)
    show ?thesis
    proof (cases "length rest < length s")
      case True
      from "1.IH"(2) [OF Some x [symmetric] True] Some x True show ?thesis
        by (subst (1 2) matchAll_from.simps) fastforce
    next
      case False
      show ?thesis
      proof (cases s)
        case Nil
        with Some x False show ?thesis by (subst (1 2) matchAll_from.simps) simp
      next
        case (Cons c s')
        from "1.IH"(3) [OF Some x [symmetric] False Cons] Some x False Cons show ?thesis
          by (subst (1 2) matchAll_from.simps) fastforce
      qed
    qed
  qed
qed


lemma field_initialisers_logger: "field_initialisers ''logger'' = Some logger"
  by (simp add: field_initialisers_def)

lemma assign_options_key:
  "k \<noteq> ''__proto__'' \<Longrightarrow> assign_options obj opts k = (case opts k of None \<Rightarrow> obj k | Some v \<Rightarrow> Some v)"
  by (simp add: assign_options_def map_add_def)

lemma own_props_Ref: "own_props h (Ref a) = obj_at h a"
  by simp

lemma getConfigFromString_unfold:
  "getConfigFromString parse getRegions h this str =
     (case getRegions (obj_at h this) str of
        Inl e \<Rightarrow> Inl e
      | Inr regions \<Rightarrow>
          (case config_loop parse regions (obj_at h this) (configs_of (obj_at h this) str) of
             Inl e \<Rightarrow> Inl e
           | Inr newConfig \<Rightarrow> ScafflaterOptions_new newConfig h))"
  by (simp add: getConfigFromString_def Let_def split: sum.splits)

lemma those_map_None: "x \<in> set xs \<Longrightarrow> f x = None \<Longrightarrow> those (map f xs) = None"
  by (induction xs) (auto split: option.splits)

lemma read_member_no_Ref: "read_member info m = Inr v \<Longrightarrow> own_props h v k \<noteq> Some (Ref a)"
proof (cases info)
  case (JObj kvs)
  assume "read_member info m = Inr v"
  with JObj have v: "v = get (member_table kvs) m" by simp
  show ?thesis
  proof (cases "member_table kvs m")
    case None
    with v show ?thesis by (simp add: get_def)
  next
    case (Some w)
    then obtain j where "w = Json j" by (auto dest: member_table_Json)
    with v Some show ?thesis by (auto simp: get_def dest: json_props_Json)
  qed
qed auto

lemma logger_target:
  assumes "newConfig ''logger'' = Some (Ref a) \<longrightarrow> cur ''logger'' = Some (Ref a)"
    and "logger \<noteq> Ref a" and "get cur ''logger'' \<noteq> Ref a"
  shows "get (assign_options field_initialisers newConfig) ''logger'' \<noteq> Ref a"
  using assms
  by (auto simp: assign_options_key field_initialisers_logger get_def split: option.splits)

lemma replace_matchAll_length:
  "length (replace_from r s) + sum_list (map (\<lambda>c. length (matched c)) (matchAll_from r i s)) = length s"
proof (induction r i s rule: matchAll_from.induct)
  case (1 r i s)
  show ?case
  proof (cases "exec_at r s")
    case None
    show ?thesis
    proof (cases s)
      case Nil
      with None show ?thesis
        by (subst replace_from.simps, subst matchAll_from.simps) simp
    next
      case (Cons c s')
      from "1.IH"(1) [OF None Cons] None Cons show ?thesis
        by (subst replace_from.simps, subst matchAll_from.simps) simp
    qed
  next
    case (Some x)
    obtain rest cap where x: "x = (rest, cap)" by (cases x)
    show ?thesis
    proof (cases "length rest < length s")
      case True
      from "1.IH"(2) [OF Some x [symmetric] True] Some x True show ?thesis
        by (subst replace_from.simps, subst matchAll_from.simps) simp
    next
      case False
      show ?thesis
      proof (cases s)
        case Nil
        with Some x False show ?thesis
          by (subst replace_from.simps, subst matchAll_from.simps) simp
      next
        case (Cons c s')
        from "1.IH"(3) [OF Some x [symmetric] False Cons] Some x False Cons show ?thesis
          by (subst replace_from.simps, subst matchAll_from.simps) simp
      qed
    qed
  qed
qed

lemma replace_no_match:
  "matchAll_from r i s = [] \<Longrightarrow> replace_from r s = s"
proof (induction r i s rule: matchAll_from.induct)
  case (1 r i s)
  from "1.prems" have none: "exec_at r s = None"
    by (subst (asm) matchAll_from.simps) (auto split: option.splits)
  show ?case
  proof (cases s)
    case Nil
    with none show ?thesis by (subst replace_from.simps) simp
  next
    case (Cons c s')
    from "1.prems" none Cons have "matchAll_from r (Suc i) s' = []"
      by (subst (asm) matchAll_from.simps) simp
    from "1.IH"(1) [OF none Cons this] none Cons show ?thesis
      by (subst replace_from.simps) simp
  qed
qed

lemma sum_list_filter_split:
  "sum_list (map f (filter P xs)) + sum_list (map f (filter (\<lambda>x. \<not> P x) xs)) = (sum_list (map f xs) :: nat)"
  by (induction xs) simp_all

lemma cut_step:
  assumes "\<forall>m\<in>set ms. Suc i \<le> index m"
  shows "cut ms i (c # s) = c # cut ms (Suc i) s"
proof (cases ms)
  case Nil
  then show ?thesis by simp
next
  case (Cons m ms')
  with assms have "Suc i \<le> index m" by simp
  then obtain d where d: "index m - i = Suc d" "index m - Suc i = d"
    by (cases "index m - i") auto
  with Cons show ?thesis by simp
qed

lemma matcher_suffix:
  "matcher r x k = Some z \<Longrightarrow> \<exists>y p. fst x = p @ fst y \<and> k y = Some z"
proof (induction r x k arbitrary: z rule: matcher.induct)
  case (1 a s cap k)
  show ?case
  proof (cases s)
    case Nil
    with "1.prems" show ?thesis by simp
  next
    case (Cons c s')
    with "1.prems" have "k (s', cap) = Some z" by (simp split: if_splits)
    with Cons have "fst (s, cap) = [c] @ fst (s', cap) \<and> k (s', cap) = Some z" by simp
    then show ?thesis by blast
  qed
next
  case (2 r1 r2 x k)
  from "2.IH"(2) [OF "2.prems" [simplified]] obtain y1 p1
    where y1: "fst x = p1 @ fst y1" "matcher r2 y1 k = Some z" by blast
  from "2.IH"(1) [OF y1(2)] obtain y2 p2 where "fst y1 = p2 @ fst y2" "k y2 = Some z" by blast
  with y1 have "fst x = (p1 @ p2) @ fst y2 \<and> k y2 = Some z" by simp
  then show ?case by blast
next
  case (3 r1 r2 x k)
  show ?case
  proof (cases "matcher r1 x k")
    case None
    with "3.prems" have "matcher r2 x k = Some z" by simp
    from "3.IH"(2) [OF None this] show ?thesis .
  next
    case (Some w)
    with "3.prems" have "matcher r1 x k = Some z" by simp
    from "3.IH"(1) [OF this] show ?thesis .
  qed
next
  case (4 r s cap k)
  let ?k = "\<lambda>y. if length (fst y) < length s then matcher (Star r) y k else None"
  show ?case
  proof (cases "matcher r (s, cap) ?k")
    case None
    with "4.prems" have "k (s, cap) = Some z" by simp
    then have "fst (s, cap) = [] @ fst (s, cap) \<and> k (s, cap) = Some z" by simp
    then show ?thesis by blast
  next
    case (Some w)
    with "4.prems" have m: "matcher r (s, cap) ?k = Some z" by simp
    from "4.IH"(2) [OF m] obtain y1 p1 where y1: "s = p1 @ fst y1" "?k y1 = Some z" by auto
    then have lt: "length (fst y1) < length s" and m2: "matcher (Star r) y1 k = Some z"
      by (auto split: if_splits)
    from "4.IH"(1) [OF lt m2] obtain y2 p2 where "fst y1 = p2 @ fst y2" "k y2 = Some z" by blast
    with y1 have "fst (s, cap) = (p1 @ p2) @ fst y2 \<and> k y2 = Some z" by simp
    then show ?thesis by blast
  qed
next
  case (5 r s cap k)
  let ?k = "\<lambda>y. if length (fst y) < length s then matcher (LazyStar r) y k else None"
  show ?case
  proof (cases "k (s, cap)")
    case (Some w)
    with "5.prems" have "k (s, cap) = Some z" by simp
    then have "fst (s, cap) = [] @ fst (s, cap) \<and> k (s, cap) = Some z" by simp
    then show ?thesis by blast
  next
    case None
    with "5.prems" have m: "matcher r (s, cap) ?k = Some z" by simp
    from "5.IH"(2) [OF None m] obtain y1 p1 where y1: "s = p1 @ fst y1" "?k y1 = Some z" by auto
    then have lt: "length (fst y1) < length s" and m2: "matcher (LazyStar r) y1 k = Some z"
      by (auto split: if_splits)
    from "5.IH"(1) [OF None lt m2] obtain y2 p2 where "fst y1 = p2 @ fst y2" "k y2 = Some z" by blast
    with y1 have "fst (s, cap) = (p1 @ p2) @ fst y2 \<and> k y2 = Some z" by simp
    then show ?thesis by blast
  qed
next
  case (6 r x k)
  show ?case
  proof (cases "matcher r x k")
    case None
    with "6.prems" have "k x = Some z" by simp
    then have "fst x = [] @ fst x \<and> k x = Some z" by simp
    then show ?thesis by blast
  next
    case (Some w)
    with "6.prems" have "matcher r x k = Some z" by simp
    from "6.IH" [OF this] show ?thesis .
  qed
next
  case (7 r s cap k)
  let ?k = "\<lambda>y. k (fst y, Some (take (length s - length (fst y)) s))"
  from "7.prems" have "matcher r (s, cap) ?k = Some z" by simp
  from "7.IH" [OF this] obtain y p where y: "s = p @ fst y" "?k y = Some z" by auto
  let ?y = "(fst y, Some (take (length s - length (fst y)) s))"
  from y have "fst (s, cap) = p @ fst ?y \<and> k ?y = Some z" by simp
  then show ?case by blast
qed

lemma exec_at_suffix: "exec_at r s = Some (rest, cap) \<Longrightarrow> \<exists>p. s = p @ rest"
  using matcher_suffix [of r "(s, None)" Some "(rest, cap)"] by (auto simp: exec_at_def)

lemma exec_at_drop:
  assumes "exec_at r s = Some (rest, cap)"
  shows "drop (length s - length rest) s = rest" and "length rest \<le> length s"
  using exec_at_suffix [OF assms] by auto

lemma replace_is_cut:
  "replace_from r s = cut (matchAll_from r i s) i s"
proof (induction r i s rule: matchAll_from.induct)
  case (1 r i s)
  have idx: "\<forall>m\<in>set (matchAll_from r j t). j \<le> index m" for j t
    using matchAll_from_index [of r j t] by simp
  show ?case
  proof (cases "exec_at r s")
    case None
    show ?thesis
    proof (cases s)
      case Nil
      with None show ?thesis
        by (subst replace_from.simps, subst matchAll_from.simps) simp
    next
      case (Cons c s')
      from "1.IH"(1) [OF None Cons] None Cons cut_step [OF idx [of "Suc i" s'], of c] show ?thesis
        by (subst replace_from.simps, subst matchAll_from.simps) simp
    qed
  next
    case (Some x)
    obtain rest cap where x: "x = (rest, cap)" by (cases x)
    show ?thesis
    proof (cases "length rest < length s")
      case True
      from Some x have "drop (length s - length rest) s = rest" by (simp add: exec_at_drop)
      with "1.IH"(2) [OF Some x [symmetric] True] Some x True show ?thesis
        by (subst replace_from.simps, subst matchAll_from.simps) simp
    next
      case False
      show ?thesis
      proof (cases s)
        case Nil
        with Some x False show ?thesis
          by (subst replace_from.simps, subst matchAll_from.simps) simp
      next
        case (Cons c s')
        from "1.IH"(3) [OF Some x [symmetric] False Cons] Some x False Cons
          cut_step [OF idx [of "Suc i" s'], of c] show ?thesis
          by (subst replace_from.simps, subst matchAll_from.simps) simp
      qed
    qed
  qed
qed


lemma new_debug_level:
  assumes "get (assign_options field_initialisers opts) ''mode'' = Str ''debug''"
    and "get (assign_options field_initialisers opts) ''logger'' = Ref l" and "l < length h"
  shows "ScafflaterOptions_new opts h =
           Inr (length h, h[l := (h ! l)(''level'' \<mapsto> Str ''debug'')] @ [assign_options field_initialisers opts])"
  using assms by (simp add: ScafflaterOptions_new_def obj_at_def)

lemma parse_error_message:
  "parse_error = Error (''Could not parse option '' @ [CHR 0x27] @ ''undefined'' @ [CHR 0x27])"
  by (simp add: parse_error_def)

lemma malformed_directive_error:
  assumes "getRegions (obj_at h this) str = Inr regions"
    and "c \<in> set (outside regions (configs_of (obj_at h this) str))"
    and "parse_payload parse c = None"
  shows "getConfigFromString parse getRegions h this str = Inl parse_error"
proof -
  from assms(2,3)
  have "those (map (parse_payload parse) (outside regions (configs_of (obj_at h this) str))) = None"
    by (rule those_map_None)
  then have "config_loop parse regions (obj_at h this) (configs_of (obj_at h this) str) = Inl parse_error"
    by (simp add: config_loop_resolve resolve_directives_def)
  with assms(1) show ?thesis by (simp add: getConfigFromString_unfold)
qed

section \<open>Options resolution: the claims\<close>







text \<open>
  C3, as the code has it. When the content of the file has, outside every region, a
  match of the option pattern whose payload the parser refuses, \<open>getFileOptions\<close> fails
  and leaves the files as they were. Text the pattern does not match is no directive: the
  example of the specification, \<^verbatim>\<open>@scf-option {bad json\<close>, has neither the colon nor the
  closing brace the pattern asks for, and resolution succeeds on it.
\<close>

theorem malformed_directive_fails:
  assumes "files filePath = Some str"
    and "getRegions (obj_at h this) str = Inr regions"
    and "c \<in> set (outside regions (configs_of (obj_at h this) str))"
    and "parse_payload parse c = None"
  shows "isl (fst (getFileOptions parse getRegions files h this filePath))
       \<and> snd (getFileOptions parse getRegions files h this filePath) = files"
proof -
  let ?cs = "configs_of (obj_at h this) str"
  from assms(3,4) have "those (map (parse_payload parse) (outside regions ?cs)) = None"
    by (rule those_map_None)
  then have "config_loop parse regions (obj_at h this) ?cs = Inl parse_error"
    by (simp add: config_loop_resolve resolve_directives_def)
  with assms(1,2) show ?thesis
    by (simp add: getFileOptions_def readFileContent_def getConfigFromString_unfold)
qed

theorem malformed_directive_fails_witness:
  "configs_of (obj_at heap0 1) bad_payload
     = [\<lparr>index = 0, matched = ''@scf-option {bad: json}'', json = Some ''{bad: json}''\<rparr>]
   \<and> JSON_parse ''{bad: json}'' = None
   \<and> isl (fst (getFileOptions JSON_parse scan_regions [''partial.txt'' \<mapsto> bad_payload] heap0 1 ''partial.txt''))
   \<and> snd (getFileOptions JSON_parse scan_regions [''partial.txt'' \<mapsto> bad_payload] heap0 1 ''partial.txt'')
       = [''partial.txt'' \<mapsto> bad_payload]"
proof -
  let ?c = "\<lparr>index = 0, matched = ''@scf-option {bad: json}'', json = Some ''{bad: json}''\<rparr>"
  let ?files = "[''partial.txt'' \<mapsto> bad_payload]"
  have cs: "configs_of (obj_at heap0 1) bad_payload = [?c]"
    by code_simp
  have regs: "scan_regions (obj_at heap0 1) bad_payload = Inr []"
    by code_simp
  have p: "JSON_parse ''{bad: json}'' = None"
    by code_simp
  have rd: "?files ''partial.txt'' = Some bad_payload" by simp
  have mem: "?c \<in> set (outside [] (configs_of (obj_at heap0 1) bad_payload))"
    unfolding cs by (simp add: outside_def in_region_def)
  have pay: "parse_payload JSON_parse ?c = None"
    by (simp add: parse_payload_def p)
  note malformed_directive_fails [where files = ?files and filePath = "''partial.txt''"
          and str = bad_payload and getRegions = scan_regions and regions = "[]" and c = ?c
          and parse = JSON_parse and h = heap0 and this = 1, OF rd regs mem pay]
  with cs p show ?thesis by simp
qed

theorem unclosed_payload_raises_nothing:
  "configs_of (obj_at heap0 1) unclosed_payload = []
   \<and> \<not> isl (fst (getFileOptions JSON_parse scan_regions [''partial.txt'' \<mapsto> unclosed_payload]
                    heap0 1 ''partial.txt''))"
  by code_simp

text \<open>
  C4. When the manifest of the folder has an options object, \<open>getFolderOptions\<close> lays
  it over the current options name by name: a name the folder object has takes the
  folder's value as it is (an array such as \<^verbatim>\<open>processors\<close> is the folder's array, not
  the two arrays joined), a name it does not have keeps the current value, or the value
  of the field initialiser when the receiver has none. The call succeeds unless the
  merged mode is debug. \<open>mergeFolderConfig\<close> does the same on plain objects with the
  member \<^verbatim>\<open>config\<close>.
\<close>

theorem folder_options_overwrite:
  assumes "get (obj_at h this) ''scfFileName'' = Str f"
    and "fs (jn folderPath f) = Some (Inr info)"
    and "read_member info ''options'' = Inr (Json (JObj kvs))"
    and "k \<noteq> ''__proto__''"
  shows "(getFolderOptions jn fs h this folderPath = Inr (r, h') \<longrightarrow>
            obj_at h' r k =
              (case member_table kvs k of
                 Some v \<Rightarrow> Some v
               | None \<Rightarrow> (case obj_at h this k of Some v \<Rightarrow> Some v | None \<Rightarrow> field_initialisers k)))
       \<and> (get (assign_options field_initialisers (obj_at h this ++ member_table kvs)) ''mode'' \<noteq> Str ''debug'' \<longrightarrow>
            (\<exists>r h'. getFolderOptions jn fs h this folderPath = Inr (r, h')))
       \<and> (get config ''scfFileName'' = Str f \<longrightarrow> read_member info ''config'' = Inr (Json (JObj cvs)) \<longrightarrow>
            mergeFolderConfig jn fs folderPath config = Inr (config ++ member_table cvs))"
proof -
  have run: "getFolderOptions jn fs h this folderPath =
      ScafflaterOptions_new (obj_at h this ++ member_table kvs) h"
    using assms(1,2,3) by (simp add: getFolderOptions_def Let_def path_arg_def)
  show ?thesis
  proof (intro conjI impI)
    assume "getFolderOptions jn fs h this folderPath = Inr (r, h')"
    with run have "ScafflaterOptions_new (obj_at h this ++ member_table kvs) h = Inr (r, h')" by simp
    from new_result(3) [OF this] assms(4) show "obj_at h' r k =
              (case member_table kvs k of
                 Some v \<Rightarrow> Some v
               | None \<Rightarrow> (case obj_at h this k of Some v \<Rightarrow> Some v | None \<Rightarrow> field_initialisers k))"
      by (simp add: assign_options_key map_add_def split: option.splits)
  next
    assume "get (assign_options field_initialisers (obj_at h this ++ member_table kvs)) ''mode'' \<noteq> Str ''debug''"
    then show "\<exists>r h'. getFolderOptions jn fs h this folderPath = Inr (r, h')"
      by (simp add: run ScafflaterOptions_new_def Let_def)
  next
    assume "get config ''scfFileName'' = Str f" and "read_member info ''config'' = Inr (Json (JObj cvs))"
    with assms(2) show "mergeFolderConfig jn fs folderPath config = Inr (config ++ member_table cvs)"
      by (simp add: mergeFolderConfig_def Let_def path_arg_def)
  qed
qed

theorem folder_options_overwrite_witness:
  "\<exists>r h'. getFolderOptions slash_join folder_fs heap0 1 ''tpl'' = Inr (r, h')
     \<and> obj_at h' r ''processors'' = Some (Json (JArr [JStr ''./processors/other'']))
     \<and> obj_at h' r ''appenders'' = obj_at heap0 1 ''appenders''"
proof -
  let ?kvs = "[(''processors'', JArr [JStr ''./processors/other'']), (''annotate'', JBool True)]"
  have f: "get (obj_at heap0 1) ''scfFileName'' = Str ''scafflater.jsonc''" by code_simp
  have fs: "folder_fs (slash_join ''tpl'' ''scafflater.jsonc'') = Some (Inr folder_manifest)"
    by (simp add: folder_fs_def slash_join_def)
  have m: "read_member folder_manifest ''options'' = Inr (Json (JObj ?kvs))"
    by (simp add: folder_manifest_def member_table_def get_def)
  have mode: "get (assign_options field_initialisers (obj_at heap0 1 ++ member_table ?kvs)) ''mode'' \<noteq> Str ''debug''"
    by code_simp
  note inst = folder_options_overwrite [where h = heap0 and this = 1 and f = "''scafflater.jsonc''"
      and fs = folder_fs and jn = slash_join and folderPath = "''tpl''" and info = folder_manifest
      and kvs = ?kvs, OF f fs m]
  from inst [of "''processors''", THEN conjunct2, THEN conjunct1] mode
  obtain r h' where run: "getFolderOptions slash_join folder_fs heap0 1 ''tpl'' = Inr (r, h')" by auto
  from inst [of "''processors''" r h', THEN conjunct1] run
  have p: "obj_at h' r ''processors'' = Some (Json (JArr [JStr ''./processors/other'']))"
    by (simp add: member_table_def)
  have "obj_at heap0 1 ''appenders'' \<noteq> None" by code_simp
  with inst [of "''appenders''" r h', THEN conjunct1] run
  have a: "obj_at h' r ''appenders'' = obj_at heap0 1 ''appenders''"
    by (auto simp: member_table_def)
  from run p a show ?thesis by blast
qed

text \<open>
  C5. Both resolution steps return a new instance and leave the receiver as it was: the
  address returned is the first free one, so it is not the receiver's, the heap grows by
  that one object, and the property table of the receiver is the same before and after.
  The receiver is an instance of the heap that is neither the shared logger nor its own
  logger.
\<close>

theorem resolution_leaves_receiver:
  assumes "this < length h" and "logger \<noteq> Ref this" and "get (obj_at h this) ''logger'' \<noteq> Ref this"
  shows "(getConfigFromString parse getRegions h this str = Inr (r, h') \<longrightarrow>
            r = length h \<and> r \<noteq> this \<and> length h' = Suc (length h) \<and> h' ! this = h ! this)
       \<and> (getFolderOptions jn fs h this folderPath = Inr (r, h') \<longrightarrow>
            r = length h \<and> r \<noteq> this \<and> length h' = Suc (length h) \<and> h' ! this = h ! this)"
proof (intro conjI impI)
  assume run: "getConfigFromString parse getRegions h this str = Inr (r, h')"
  then obtain regions newConfig
    where loop: "config_loop parse regions (obj_at h this) (configs_of (obj_at h this) str) = Inr newConfig"
      and new: "ScafflaterOptions_new newConfig h = Inr (r, h')"
    by (auto simp: getConfigFromString_unfold split: sum.splits)
  from new_result(1) [OF new] show "r = length h" .
  with assms(1) show "r \<noteq> this" by simp
  from new_result(2) [OF new] show "length h' = Suc (length h)" .
  have "newConfig ''logger'' = Some (Ref this) \<longrightarrow> obj_at h this ''logger'' = Some (Ref this)"
    using config_loop_Ref [OF loop] by blast
  then have "get (assign_options field_initialisers newConfig) ''logger'' \<noteq> Ref this"
    using assms(2,3) by (rule logger_target [where cur = "obj_at h this"])
  from new_frame [OF new assms(1) this] show "h' ! this = h ! this" .
next
  assume run: "getFolderOptions jn fs h this folderPath = Inr (r, h')"
  then obtain newConfig where new: "ScafflaterOptions_new newConfig h = Inr (r, h')"
    and cfg: "newConfig = obj_at h this \<or> (\<exists>info v. read_member info ''options'' = Inr v \<and> newConfig = obj_at h this ++ own_props h v)"
    by (auto simp: getFolderOptions_def Let_def split: sum.splits option.splits if_splits)
  from new_result(1) [OF new] show "r = length h" .
  with assms(1) show "r \<noteq> this" by simp
  from new_result(2) [OF new] show "length h' = Suc (length h)" .
  have "newConfig ''logger'' = Some (Ref this) \<longrightarrow> obj_at h this ''logger'' = Some (Ref this)"
    using cfg by (auto simp: map_add_def split: option.splits dest: read_member_no_Ref)
  then have "get (assign_options field_initialisers newConfig) ''logger'' \<noteq> Ref this"
    using assms(2,3) by (rule logger_target [where cur = "obj_at h this"])
  from new_frame [OF new assms(1) this] show "h' ! this = h ! this" .
qed

theorem resolution_leaves_receiver_witness:
  "1 < length heap0 \<and> logger \<noteq> Ref 1 \<and> get (obj_at heap0 1) ''logger'' \<noteq> Ref 1
   \<and> (\<exists>r h'. getConfigFromString JSON_parse scan_regions heap0 1 two_directives = Inr (r, h')
         \<and> r = 2 \<and> length h' = 3 \<and> h' ! 1 = heap0 ! 1)
   \<and> (\<exists>r h'. getFolderOptions slash_join folder_fs heap0 1 ''tpl'' = Inr (r, h')
         \<and> r = 2 \<and> length h' = 3 \<and> h' ! 1 = heap0 ! 1)"
proof -
  have h1: "1 < length heap0" by (simp add: heap0_def)
  have h2: "logger \<noteq> Ref 1" by (simp add: logger_def)
  have h3: "get (obj_at heap0 1) ''logger'' \<noteq> Ref 1" by code_simp
  have "\<not> isl (getConfigFromString JSON_parse scan_regions heap0 1 two_directives)"
    by code_simp
  then obtain r h' where run: "getConfigFromString JSON_parse scan_regions heap0 1 two_directives = Inr (r, h')"
    by (cases "getConfigFromString JSON_parse scan_regions heap0 1 two_directives") auto
  have "\<not> isl (getFolderOptions slash_join folder_fs heap0 1 ''tpl'')"
    by code_simp
  then obtain r2 h2' where run2: "getFolderOptions slash_join folder_fs heap0 1 ''tpl'' = Inr (r2, h2')"
    by (cases "getFolderOptions slash_join folder_fs heap0 1 ''tpl''") auto
  from resolution_leaves_receiver [OF h1 h2 h3, of JSON_parse scan_regions two_directives r h', THEN conjunct1] run
  have a: "r = 2 \<and> length h' = 3 \<and> h' ! 1 = heap0 ! 1" by (simp add: heap0_def)
  from resolution_leaves_receiver [OF h1 h2 h3, of _ _ _ r2 h2' slash_join folder_fs "''tpl''", THEN conjunct2] run2
  have b: "r2 = 2 \<and> length h2' = 3 \<and> h2' ! 1 = heap0 ! 1" by (simp add: heap0_def)
  from h1 h2 h3 run a run2 b show ?thesis by blast
qed

text \<open>
  C8, as the code has it. \<open>stripConfig\<close> removes the text of every match of its
  pattern, inside regions as well as outside: the result is the input with the span of
  every match cut out, so for any list of regions the length of the result and the
  lengths of the matches inside and outside the regions add up to the length of the
  input. A text without a match is returned as it is.
\<close>

theorem stripConfig_ignores_regions:
  "stripConfig h this str = cut (strip_matches (obj_at h this) str) 0 str
   \<and> length (stripConfig h this str)
       + sum_list (map (\<lambda>c. length (matched c))
           (filter (\<lambda>c. in_region regions (index c)) (strip_matches (obj_at h this) str)))
       + sum_list (map (\<lambda>c. length (matched c))
           (filter (\<lambda>c. \<not> in_region regions (index c)) (strip_matches (obj_at h this) str)))
       = length str
   \<and> (strip_matches (obj_at h this) str = [] \<longrightarrow> stripConfig h this str = str)"
proof (intro conjI)
  let ?r = "stripRegex (template_text (get (obj_at h this) ''optionMarker''))"
  show "stripConfig h this str = cut (strip_matches (obj_at h this) str) 0 str"
    unfolding stripConfig_def strip_matches_def matchAll_def by (rule replace_is_cut)
  have "length (replace_from ?r str) + sum_list (map (\<lambda>c. length (matched c)) (matchAll_from ?r 0 str)) = length str"
    by (rule replace_matchAll_length)
  then show "length (stripConfig h this str)
       + sum_list (map (\<lambda>c. length (matched c))
           (filter (\<lambda>c. in_region regions (index c)) (strip_matches (obj_at h this) str)))
       + sum_list (map (\<lambda>c. length (matched c))
           (filter (\<lambda>c. \<not> in_region regions (index c)) (strip_matches (obj_at h this) str)))
       = length str"
    by (simp add: stripConfig_def strip_matches_def matchAll_def add.assoc sum_list_filter_split)
  show "strip_matches (obj_at h this) str = [] \<longrightarrow> stripConfig h this str = str"
  proof
    assume "strip_matches (obj_at h this) str = []"
    then have "matchAll_from ?r 0 str = []" by (simp add: strip_matches_def matchAll_def)
    then show "stripConfig h this str = str" unfolding stripConfig_def by (rule replace_no_match)
  qed
qed

theorem stripConfig_ignores_regions_witness:
  "strip_matches (obj_at heap0 1) plain_text = [] \<and> stripConfig heap0 1 plain_text = plain_text"
proof -
  have none: "strip_matches (obj_at heap0 1) plain_text = []"
    by code_simp
  with stripConfig_ignores_regions [of heap0 1 plain_text "[]", THEN conjunct2, THEN conjunct2]
  show ?thesis by simp
qed

theorem stripConfig_strips_inside_region:
  "scan_regions (obj_at heap0 1) region_text
     = Inr [\<lparr>startOffset = 0, endOffset = 38, contentStart = 14, contentEnd = 38\<rparr>]
   \<and> in_region [\<lparr>startOffset = 0, endOffset = 38, contentStart = 14, contentEnd = 38\<rparr>] 14
   \<and> take 22 (drop 14 region_text) = ''# @scf-option {\"a\":1}\<newline>''
   \<and> stripConfig heap0 1 region_text = ''# @scf-region\<newline>x\<newline># @end-scf-region\<newline>''"
  by code_simp

section \<open>The processor registry and the manifest: the claims\<close>

text \<open>
  C7. \<open>getProcessor\<close> compares the literal \<^verbatim>\<open>'region-processor'\<close> with the identifier
  \<^verbatim>\<open>value\<close>, which nothing binds: with the global object of the platform, which has no
  such property, every call ends in a ReferenceError, the call for the name
  \<^verbatim>\<open>region-processor\<close> included, and the error of an unknown name is never reached.
\<close>

theorem getProcessor_throws:
  "getProcessor Map.empty n = Inl (ReferenceError ''value is not defined'')"
  by (simp add: getProcessor_def)

text \<open>
  C9. \<open>runPartial\<close> writes the manifest once, after the generator has returned: when
  it succeeds, the manifest is the one read at the start with exactly one record
  \<^verbatim>\<open>{path, parameters}\<close> added at the end of its list, written over the files the
  generator left. When it fails, it has written nothing: if the template manager and a
  failing generator leave the manifest alone, the manifest is what it was.
\<close>

theorem runPartial_commit:
  fixes generate :: "('i, 'p) generation_context \<Rightarrow> 'p files \<Rightarrow> (error + unit) \<times> 'p files"
  assumes frame1: "\<And>a b c f. snd (getPartial a b c f) (jn tp scf) = f (jn tp scf)"
    and frame2: "\<And>a b f. snd (getTemplatePath a b f) (jn tp scf) = f (jn tp scf)"
    and frame3: "\<And>ctx f e. fst (generate ctx f) = Inl e \<Longrightarrow> snd (generate ctx f) (jn tp scf) = f (jn tp scf)"
  shows "(fst (runPartial jn getPartial getTemplatePath generate scf pp params tp files) = Inr () \<longrightarrow>
            (\<exists>scfConfig ctx f f'.
               files (jn tp scf) = Some scfConfig \<and>
               generate ctx f = (Inr (), f') \<and> ctx_parameters ctx = params \<and>
               snd (runPartial jn getPartial getTemplatePath generate scf pp params tp files) =
                 f'(jn tp scf \<mapsto>
                    scfConfig\<lparr>partials :=
                      Some ((case partials scfConfig of None \<Rightarrow> [] | Some ps \<Rightarrow> ps) @
                            [\<lparr>path = name (template scfConfig) @ ''/'' @ pp, parameters = params\<rparr>])\<rparr>)))
       \<and> (fst (runPartial jn getPartial getTemplatePath generate scf pp params tp files) = Inl e \<longrightarrow>
            snd (runPartial jn getPartial getTemplatePath generate scf pp params tp files) (jn tp scf) = files (jn tp scf))"
proof (intro conjI impI)
  assume ok: "fst (runPartial jn getPartial getTemplatePath generate scf pp params tp files) = Inr ()"
  then show "\<exists>scfConfig ctx f f'.
               files (jn tp scf) = Some scfConfig \<and>
               generate ctx f = (Inr (), f') \<and> ctx_parameters ctx = params \<and>
               snd (runPartial jn getPartial getTemplatePath generate scf pp params tp files) =
                 f'(jn tp scf \<mapsto>
                    scfConfig\<lparr>partials :=
                      Some ((case partials scfConfig of None \<Rightarrow> [] | Some ps \<Rightarrow> ps) @
                            [\<lparr>path = name (template scfConfig) @ ''/'' @ pp, parameters = params\<rparr>])\<rparr>)"
    by (fastforce simp: runPartial_def readJsonSync_def writeJSONSync_def
        split: sum.splits option.splits prod.splits)
next
  assume err: "fst (runPartial jn getPartial getTemplatePath generate scf pp params tp files) = Inl e"
  show "snd (runPartial jn getPartial getTemplatePath generate scf pp params tp files) (jn tp scf) = files (jn tp scf)"
  proof (cases "readJsonSync files (jn tp scf)")
    case (Inl e0)
    then show ?thesis by (simp add: runPartial_def)
  next
    case (Inr scfConfig)
    let ?n = "name (template scfConfig)" and ?v = "version (template scfConfig)"
    obtain r1 f1 where g1: "getPartial pp ?n ?v files = (r1, f1)" by (cases "getPartial pp ?n ?v files")
    from frame1 [of pp ?n ?v files] g1 have f1: "f1 (jn tp scf) = files (jn tp scf)" by simp
    show ?thesis
    proof (cases r1)
      case (Inl e1)
      with Inr g1 f1 show ?thesis by (simp add: runPartial_def)
    next
      case pi: (Inr partialInfo)
      obtain r2 f2 where g2: "getTemplatePath ?n ?v f1 = (r2, f2)" by (cases "getTemplatePath ?n ?v f1")
      from frame2 [of ?n ?v f1] g2 f1 have f2: "f2 (jn tp scf) = files (jn tp scf)" by simp
      show ?thesis
      proof (cases r2)
        case (Inl e2)
        with Inr g1 pi g2 f2 show ?thesis by (simp add: runPartial_def)
      next
        case tpath: (Inr templatePath')
        show ?thesis
        proof (cases "readJsonSync f2 (jn templatePath' scf)")
          case (Inl e3)
          with Inr g1 pi g2 tpath f2 show ?thesis by (simp add: runPartial_def)
        next
          case tscf: (Inr templateScf)
          let ?ctx = "\<lparr>partial = fst partialInfo, partialPath = snd partialInfo,
                        ctx_parameters = params, targetPath = tp,
                        ctx_template = templateScf, templatePath = templatePath'\<rparr>"
          obtain r3 f3 where g3: "generate ?ctx f2 = (r3, f3)" by (cases "generate ?ctx f2")
          show ?thesis
          proof (cases r3)
            case (Inl e4)
            with frame3 [of ?ctx f2 e4] g3 f2 have "f3 (jn tp scf) = files (jn tp scf)" by simp
            with Inr g1 pi g2 tpath tscf g3 Inl show ?thesis by (simp add: runPartial_def)
          next
            case (Inr u)
            with \<open>readJsonSync files (jn tp scf) = Inr scfConfig\<close> g1 pi g2 tpath tscf g3 err show ?thesis
              by (simp add: runPartial_def)
          qed
        qed
      qed
    qed
  qed
qed

theorem runPartial_commit_witness:
  "fst (runPartial slash_join getPartial0 getTemplatePath0 generate_fails ''_scf.json'' ''p'' ''x=1'' ''.'' files0)
     = Inl (Error ''render failed'')
   \<and> snd (runPartial slash_join getPartial0 getTemplatePath0 generate_fails ''_scf.json'' ''p'' ''x=1'' ''.'' files0)
       (slash_join ''.'' ''_scf.json'') = files0 (slash_join ''.'' ''_scf.json'')
   \<and> fst (runPartial slash_join getPartial0 getTemplatePath0 generate_ok ''_scf.json'' ''p'' ''x=1'' ''.'' files0)
     = Inr ()
   \<and> snd (runPartial slash_join getPartial0 getTemplatePath0 generate_ok ''_scf.json'' ''p'' ''x=1'' ''.'' files0)
       (slash_join ''.'' ''_scf.json'')
     = Some (manifest0\<lparr>partials := Some [\<lparr>path = ''t/p'', parameters = ''x=1''\<rparr>]\<rparr>)"
proof -
  have fail: "fst (runPartial slash_join getPartial0 getTemplatePath0 generate_fails ''_scf.json'' ''p'' ''x=1'' ''.'' files0)
     = Inl (Error ''render failed'')"
    by (simp add: runPartial_def readJsonSync_def files0_def slash_join_def getPartial0_def
        getTemplatePath0_def generate_fails_def manifest0_def)
  have ok: "fst (runPartial slash_join getPartial0 getTemplatePath0 generate_ok ''_scf.json'' ''p'' ''x=1'' ''.'' files0)
     = Inr ()"
    by (simp add: runPartial_def readJsonSync_def files0_def slash_join_def getPartial0_def
        getTemplatePath0_def generate_ok_def manifest0_def)
  have frames: "\<And>a b c f. snd (getPartial0 a b c f) (slash_join ''.'' ''_scf.json'') = f (slash_join ''.'' ''_scf.json'')"
    "\<And>a b f. snd (getTemplatePath0 a b f) (slash_join ''.'' ''_scf.json'') = f (slash_join ''.'' ''_scf.json'')"
    by (simp_all add: getPartial0_def getTemplatePath0_def)
  have unchanged: "snd (runPartial slash_join getPartial0 getTemplatePath0 generate_fails ''_scf.json'' ''p'' ''x=1'' ''.'' files0)
       (slash_join ''.'' ''_scf.json'') = files0 (slash_join ''.'' ''_scf.json'')"
    using runPartial_commit [of getPartial0 slash_join "''.''" "''_scf.json''" getTemplatePath0 generate_fails
        "''p''" "''x=1''" files0 "Error ''render failed''", THEN conjunct2] frames fail
    by (simp add: generate_fails_def)
  from runPartial_commit [of getPartial0 slash_join "''.''" "''_scf.json''" getTemplatePath0 generate_ok
        "''p''" "''x=1''" files0, THEN conjunct1] frames ok
  obtain scfConfig ctx f f' where c: "files0 (slash_join ''.'' ''_scf.json'') = Some scfConfig"
    "generate_ok ctx f = (Inr (), f')"
    "snd (runPartial slash_join getPartial0 getTemplatePath0 generate_ok ''_scf.json'' ''p'' ''x=1'' ''.'' files0) =
       f'(slash_join ''.'' ''_scf.json'' \<mapsto>
          scfConfig\<lparr>partials := Some ((case partials scfConfig of None \<Rightarrow> [] | Some ps \<Rightarrow> ps) @
                       [\<lparr>path = name (template scfConfig) @ ''/'' @ ''p'', parameters = ''x=1''\<rparr>])\<rparr>)"
    by (auto simp: generate_ok_def)
  from c(1) have "scfConfig = manifest0" by (simp add: files0_def slash_join_def)
  with c(3) have "snd (runPartial slash_join getPartial0 getTemplatePath0 generate_ok ''_scf.json'' ''p'' ''x=1'' ''.'' files0)
       (slash_join ''.'' ''_scf.json'')
     = Some (manifest0\<lparr>partials := Some [\<lparr>path = ''t/p'', parameters = ''x=1''\<rparr>]\<rparr>)"
    by (simp add: manifest0_def)
  with fail ok unchanged show ?thesis by simp
qed

end
